theory Spec2Isabelle
  imports Complex_Main "HOL-Library.Word"
begin

section \<open>Data model\<close>

text \<open>
  The chat backend keeps three kinds of documents: users, conversations and messages.
  This theory embeds the behavioural methods of the Message and Conversation models, the
  message routes, and the socket handler with its table of connected users.

  A MongoDB ObjectId is modelled by a natural number. \<^verbatim>\<open>a.equals(b)\<close> on
  ObjectIds is equality of the numbers, and \<^verbatim>\<open>toString()\<close> is injective, so
  a JavaScript Map keyed by \<^verbatim>\<open>userId.toString()\<close> is a map keyed by the id.
  A Date is its number of milliseconds since the epoch; every \<^verbatim>\<open>new Date()\<close> and
  \<^verbatim>\<open>Date.now()\<close> of the source is a parameter \<open>now\<close> of the model. A schema
  field that may be absent (\<^verbatim>\<open>undefined\<close> or \<^verbatim>\<open>null\<close>) is an option.
  The bookkeeping fields \<^verbatim>\<open>createdAt\<close>/\<^verbatim>\<open>updatedAt\<close> that Mongoose adds
  for \<^verbatim>\<open>timestamps: true\<close> are not part of the model.

  A JavaScript string is the list of its UTF-16 code units, so \<open>length\<close> is the
  string's \<^verbatim>\<open>length\<close>, the measure of the schema's \<^verbatim>\<open>maxlength\<close>. A string
  literal of the source that is plain ASCII is written \<open>ascii ''...''\<close>. The texts of the
  error answers are server constants and stay Isabelle strings.
\<close>

type_synonym object_id = nat
type_synonym date = int
type_synonym js_string = "16 word list"

definition ascii :: "string \<Rightarrow> js_string" where
  "ascii cs = map of_char cs"

subsection \<open>Messages (models/Message.js)\<close>

datatype message_type =
  Text | Image | Video | Audio | File | Location | Contact | Sticker | System

record media =
  media_url :: js_string
  media_filename :: js_string
  media_size :: real
  media_mimeType :: js_string
  media_duration :: real
  media_thumbnail :: js_string
  media_width :: real
  media_height :: real

record location =
  latitude :: real
  longitude :: real
  address :: js_string

record contact =
  contact_name :: js_string
  contact_phone :: js_string
  contact_email :: js_string

record sticker =
  sticker_id :: js_string
  sticker_url :: js_string

record content =
  content_text :: "js_string option"
  content_media :: "media option"
  content_location :: "location option"
  content_contact :: "contact option"
  content_sticker :: "sticker option"

record forwarded =
  forwarded_message :: object_id
  forwarded_user :: object_id

record read_entry =
  read_user :: object_id
  readAt :: date

record delivered_entry =
  delivered_user :: object_id
  deliveredAt :: date

record metadata =
  clientId :: "js_string option"
  deviceId :: "js_string option"
  platform :: "js_string option"
  version :: "js_string option"

record message =
  conversation :: object_id
  sender :: object_id
  msg_type :: message_type
  content :: content
  replyTo :: "object_id option"
  forwardedFrom :: "forwarded option"
  reactions :: "js_string \<rightharpoonup> object_id list"
  readBy :: "read_entry list"
  deliveredTo :: "delivered_entry list"
  isEdited :: bool
  editedAt :: "date option"
  isDeleted :: bool
  deletedAt :: "date option"
  deletedBy :: "object_id option"
  metadata :: metadata


text \<open>
  \<^verbatim>\<open>reactions\<close> is a Mongoose Map. Its \<^verbatim>\<open>set(key, value)\<close> checks the key
  before it stores anything and throws for a key that starts with \<^verbatim>\<open>$\<close>, that
  contains \<^verbatim>\<open>.\<close>, or that is one of the reserved names; \<^verbatim>\<open>has\<close> and
  \<^verbatim>\<open>get\<close> do not check. \<open>None\<close> is the throw.
\<close>

definition valid_map_key :: "js_string \<Rightarrow> bool" where
  "valid_map_key key =
     (if take 1 key = [0x24] then False
      else if 0x2E \<in> set key then False
      else if key \<in> set [ascii ''__proto__'', ascii ''constructor'', ascii ''prototype'']
      then False
      else True)"

definition map_set ::
  "(js_string \<rightharpoonup> 'v) \<Rightarrow> js_string \<Rightarrow> 'v \<Rightarrow> (js_string \<rightharpoonup> 'v) option" where
  "map_set rs key v = (if valid_map_key key then Some (rs(key \<mapsto> v)) else None)"

text \<open>
  \<^verbatim>\<open>addReaction(reaction, userId)\<close>: create the token's list when the token is new, then
  append the user unless the list already holds it, and save. The lookup after the first
  step always finds a list. When a \<^verbatim>\<open>set\<close> throws, the method throws before
  \<^verbatim>\<open>save\<close> and nothing is stored: the result is \<open>None\<close>.
\<close>

definition addReaction :: "message \<Rightarrow> js_string \<Rightarrow> object_id \<Rightarrow> message option" where
  "addReaction m reaction userId =
     (case (if reactions m reaction = None then map_set (reactions m) reaction []
            else Some (reactions m)) of
        None \<Rightarrow> None
      | Some rs \<Rightarrow>
          (let users = (case rs reaction of Some us \<Rightarrow> us | None \<Rightarrow> [])
           in if userId \<notin> set users
              then (case map_set rs reaction (users @ [userId]) of
                      None \<Rightarrow> None
                    | Some rs' \<Rightarrow> Some (m\<lparr>reactions := rs'\<rparr>))
              else Some (m\<lparr>reactions := rs\<rparr>)))"

text \<open>
  \<^verbatim>\<open>removeReaction(reaction, userId)\<close>: when the token has an entry, drop the user from
  its list; delete the entry when nothing is left, store the filtered list otherwise. The
  \<^verbatim>\<open>delete\<close> and the \<^verbatim>\<open>set\<close> of this method are given a key that the map
  holds, which is a key that passed the check when it was first stored.
\<close>

definition removeReaction :: "message \<Rightarrow> js_string \<Rightarrow> object_id \<Rightarrow> message" where
  "removeReaction m reaction userId =
     (case reactions m reaction of
        None \<Rightarrow> m
      | Some users \<Rightarrow>
          (let filteredUsers = filter (\<lambda>i. i \<noteq> userId) users
           in if length filteredUsers = 0
              then m\<lparr>reactions := (reactions m)(reaction := None)\<rparr>
              else m\<lparr>reactions := (reactions m)(reaction \<mapsto> filteredUsers)\<rparr>))"



definition markAsRead :: "message \<Rightarrow> object_id \<Rightarrow> date \<Rightarrow> message" where
  "markAsRead m userId now =
     (case find (\<lambda>r. read_user r = userId) (readBy m) of
        None \<Rightarrow> m\<lparr>readBy := readBy m @ [\<lparr>read_user = userId, readAt = now\<rparr>]\<rparr>
      | Some existingRead \<Rightarrow> m)"

definition markAsDelivered :: "message \<Rightarrow> object_id \<Rightarrow> date \<Rightarrow> message" where
  "markAsDelivered m userId now =
     (case find (\<lambda>d. delivered_user d = userId) (deliveredTo m) of
        None \<Rightarrow> m\<lparr>deliveredTo := deliveredTo m @ [\<lparr>delivered_user = userId, deliveredAt = now\<rparr>]\<rparr>
      | Some existingDelivery \<Rightarrow> m)"

text \<open>
  \<^verbatim>\<open>editMessage(newContent)\<close> assigns three fields of the document and saves it;
  \<^verbatim>\<open>deleteMessage(userId)\<close> likewise. Neither method reads the message's state first.
\<close>

definition editMessage :: "message \<Rightarrow> js_string \<Rightarrow> date \<Rightarrow> message" where
  "editMessage m newContent now =
     m\<lparr>content := (content m)\<lparr>content_text := Some newContent\<rparr>,
       isEdited := True,
       editedAt := Some now\<rparr>"

definition deleteMessage :: "message \<Rightarrow> object_id \<Rightarrow> date \<Rightarrow> message" where
  "deleteMessage m userId now =
     m\<lparr>isDeleted := True, deletedAt := Some now, deletedBy := Some userId\<rparr>"

subsection \<open>Conversations (models/Conversation.js)\<close>

text \<open>
  The fields of the conversation schema that the operations below read or write. An
  unread counter is a JavaScript Number that only ever holds an integer; it is modelled
  by \<open>int\<close>. A document's \<^verbatim>\<open>_id\<close> is the key under which the store holds it
  (see the record \<open>server\<close>).
\<close>

datatype role = Admin | Moderator | Member

datatype conversation_type = Direct | Group

record participant =
  user :: object_id
  role :: role
  joinedAt :: date
  leftAt :: "date option"
  isActive :: bool

record mute_entry =
  mute_user :: object_id
  mutedUntil :: "date option"
  mutedAt :: date

record conversation =
  conv_type :: conversation_type
  participants :: "participant list"
  lastMessage :: "object_id option"
  lastMessageAt :: date
  unreadCount :: "object_id \<rightharpoonup> int"
  mutedBy :: "mute_entry list"

text \<open>
  \<^verbatim>\<open>xs.find(P)\<close> followed by assignments to fields of the element found changes the
  first element of the array that satisfies \<open>P\<close>, in place.
\<close>

fun update_first :: "('a \<Rightarrow> bool) \<Rightarrow> ('a \<Rightarrow> 'a) \<Rightarrow> 'a list \<Rightarrow> 'a list" where
  "update_first P f [] = []"
| "update_first P f (x # xs) = (if P x then f x # xs else x # update_first P f xs)"

text \<open>
  The membership test that every handler writes inline as
  \<^verbatim>\<open>conversation.participants.some(p => p.user.equals(userId) && p.isActive)\<close> and
  binds to \<^verbatim>\<open>isParticipant\<close>.
\<close>

definition isParticipant :: "conversation \<Rightarrow> object_id \<Rightarrow> bool" where
  "isParticipant c userId = list_ex (\<lambda>p. user p = userId \<and> isActive p) (participants c)"

definition addParticipant :: "conversation \<Rightarrow> object_id \<Rightarrow> role \<Rightarrow> date \<Rightarrow> conversation" where
  "addParticipant c userId r now =
     (case find (\<lambda>p. user p = userId) (participants c) of
        None \<Rightarrow>
          c\<lparr>participants := participants c @
               [\<lparr>user = userId, role = r, joinedAt = now, leftAt = None, isActive = True\<rparr>]\<rparr>
      | Some existingParticipant \<Rightarrow> c)"

definition removeParticipant :: "conversation \<Rightarrow> object_id \<Rightarrow> date \<Rightarrow> conversation" where
  "removeParticipant c userId now =
     c\<lparr>participants :=
         update_first (\<lambda>p. user p = userId) (\<lambda>p. p\<lparr>isActive := False, leftAt := Some now\<rparr>)
           (participants c)\<rparr>"

text \<open>
  \<^verbatim>\<open>updateUnreadCount(userId, count = 1)\<close> reads the counter into
  \<^verbatim>\<open>currentCount\<close> with \<^verbatim>\<open>this.unreadCount.get(key) || 0\<close>: an absent
  counter reads as 0.
\<close>

definition currentCount :: "conversation \<Rightarrow> object_id \<Rightarrow> int" where
  "currentCount c userId = (case unreadCount c userId of Some n \<Rightarrow> n | None \<Rightarrow> 0)"

definition updateUnreadCount :: "conversation \<Rightarrow> object_id \<Rightarrow> int \<Rightarrow> conversation" where
  "updateUnreadCount c userId count =
     c\<lparr>unreadCount := (unreadCount c)(userId \<mapsto> currentCount c userId + count)\<rparr>"

definition resetUnreadCount :: "conversation \<Rightarrow> object_id \<Rightarrow> conversation" where
  "resetUnreadCount c userId = c\<lparr>unreadCount := (unreadCount c)(userId \<mapsto> 0)\<rparr>"

text \<open>
  \<^verbatim>\<open>muteConversation(userId, duration = null)\<close>. The duration is a number of
  milliseconds or absent; \<^verbatim>\<open>duration ? ... : null\<close> takes the first branch for a
  number other than 0.
\<close>

definition muteConversation ::
  "conversation \<Rightarrow> object_id \<Rightarrow> int option \<Rightarrow> date \<Rightarrow> conversation" where
  "muteConversation c userId duration now =
     (let until = (case duration of
                     None \<Rightarrow> None
                   | Some d \<Rightarrow> if d = 0 then None else Some (now + d))
      in case find (\<lambda>m. mute_user m = userId) (mutedBy c) of
           Some existingMute \<Rightarrow>
             c\<lparr>mutedBy := update_first (\<lambda>m. mute_user m = userId)
                             (\<lambda>m. m\<lparr>mutedUntil := until, mutedAt := now\<rparr>) (mutedBy c)\<rparr>
         | None \<Rightarrow>
             c\<lparr>mutedBy := mutedBy c @
                  [\<lparr>mute_user = userId, mutedUntil = until, mutedAt = now\<rparr>]\<rparr>)"

definition unmuteConversation :: "conversation \<Rightarrow> object_id \<Rightarrow> conversation" where
  "unmuteConversation c userId =
     c\<lparr>mutedBy := filter (\<lambda>m. mute_user m \<noteq> userId) (mutedBy c)\<rparr>"

text \<open>
  \<^verbatim>\<open>isUserMuted(userId)\<close> returns a boolean and may filter \<^verbatim>\<open>this.mutedBy\<close>; the
  model returns the answer together with the document as the call leaves it. The test
  \<^verbatim>\<open>mute.mutedUntil && mute.mutedUntil > new Date()\<close> is false for an absent
  \<^verbatim>\<open>mutedUntil\<close>.
\<close>

definition isUserMuted :: "conversation \<Rightarrow> object_id \<Rightarrow> date \<Rightarrow> bool \<times> conversation" where
  "isUserMuted c userId now =
     (case find (\<lambda>m. mute_user m = userId) (mutedBy c) of
        None \<Rightarrow> (False, c)
      | Some mute \<Rightarrow>
          if (case mutedUntil mute of Some t \<Rightarrow> now < t | None \<Rightarrow> False)
          then (True, c)
          else (False, c\<lparr>mutedBy := filter (\<lambda>m. mute_user m \<noteq> userId) (mutedBy c)\<rparr>))"

subsection \<open>The store, the connected users and new documents\<close>

text \<open>
  The two collections map a document's \<^verbatim>\<open>_id\<close> to the document, so
  \<^verbatim>\<open>findById\<close> is a lookup. \<^verbatim>\<open>connectedUsers\<close> is the module-level Map of the
  socket handler. New ObjectIds are drawn from a counter: the driver generates an id when
  a document is constructed, before it is saved.
\<close>

record connection =
  conn_socketId :: js_string
  conn_userId :: object_id

record socket =
  socket_id :: js_string
  socket_userId :: object_id
  auth_deviceId :: "js_string option"
  auth_platform :: "js_string option"
  auth_version :: "js_string option"

record server =
  conversations :: "object_id \<rightharpoonup> conversation"
  messages :: "object_id \<rightharpoonup> message"
  connectedUsers :: "object_id \<rightharpoonup> connection"
  next_object_id :: object_id

datatype error = HttpError nat string | SocketError string

text \<open>A new message document: the fields given, every other field at its schema default.\<close>

definition new_Message ::
  "object_id \<Rightarrow> object_id \<Rightarrow> message_type \<Rightarrow> content \<Rightarrow> object_id option \<Rightarrow>
   forwarded option \<Rightarrow> metadata \<Rightarrow> message" where
  "new_Message conversationId senderId ty c reply fwd md =
     \<lparr>conversation = conversationId, sender = senderId, msg_type = ty, content = c,
      replyTo = reply, forwardedFrom = fwd, reactions = Map.empty, readBy = [],
      deliveredTo = [], isEdited = False, editedAt = None, isDeleted = False,
      deletedAt = None, deletedBy = None, metadata = md\<rparr>"

text \<open>
  The schema's enum of message types, and its validator on \<^verbatim>\<open>content.text\<close>:
  \<^verbatim>\<open>maxlength\<close> bounds the string's \<^verbatim>\<open>length\<close>, its number of UTF-16 code units.
\<close>

definition message_type_of :: "js_string \<Rightarrow> message_type option" where
  "message_type_of t =
     (if t = ascii ''text'' then Some Text
      else if t = ascii ''image'' then Some Image
      else if t = ascii ''video'' then Some Video
      else if t = ascii ''audio'' then Some Audio
      else if t = ascii ''file'' then Some File
      else if t = ascii ''location'' then Some Location
      else if t = ascii ''contact'' then Some Contact
      else if t = ascii ''sticker'' then Some Sticker
      else if t = ascii ''system'' then Some System
      else None)"

definition valid_message :: "message \<Rightarrow> bool" where
  "valid_message m =
     (case content_text (content m) of None \<Rightarrow> True | Some t \<Rightarrow> length t \<le> 5000)"

text \<open>
  \<^verbatim>\<open>message.save()\<close> of a new or edited message: the write happens when the document
  passes validation and the store accepts it (\<open>store_ok\<close>); otherwise the promise
  rejects (\<open>None\<close>) and nothing is written.
\<close>

definition save_message :: "server \<Rightarrow> bool \<Rightarrow> object_id \<Rightarrow> message \<Rightarrow> server option" where
  "save_message s store_ok messageId m =
     (if valid_message m \<and> store_ok
      then Some (s\<lparr>messages := (messages s)(messageId \<mapsto> m)\<rparr>)
      else None)"

text \<open>
  The participant array that \<^verbatim>\<open>POST /api/conversations\<close> gives a new conversation:
  the creator as admin, then one member entry for each id of the request, as listed.
\<close>

definition new_conversation_participants ::
  "object_id \<Rightarrow> object_id list \<Rightarrow> date \<Rightarrow> participant list" where
  "new_conversation_participants userId ps now =
     \<lparr>user = userId, role = Admin, joinedAt = now, leftAt = None, isActive = True\<rparr> #
     map (\<lambda>p. \<lparr>user = p, role = Member, joinedAt = now, leftAt = None, isActive = True\<rparr>) ps"

subsection \<open>Presence (socket handler: connection and disconnect)\<close>

definition on_connection :: "server \<Rightarrow> socket \<Rightarrow> server" where
  "on_connection s sock =
     s\<lparr>connectedUsers := (connectedUsers s)(socket_userId sock \<mapsto>
          \<lparr>conn_socketId = socket_id sock, conn_userId = socket_userId sock\<rparr>)\<rparr>"

definition on_disconnect :: "server \<Rightarrow> socket \<Rightarrow> server" where
  "on_disconnect s sock =
     s\<lparr>connectedUsers := (connectedUsers s)(socket_userId sock := None)\<rparr>"

text \<open>
  The handler decides that a participant is online by
  \<^verbatim>\<open>connectedUsers.get(participant.user.toString())\<close> being present.
\<close>

definition isOnline :: "server \<Rightarrow> object_id \<Rightarrow> bool" where
  "isOnline s userId = (connectedUsers s userId \<noteq> None)"

subsection \<open>Sending a message\<close>

text \<open>
  The loop \<^verbatim>\<open>for (const participant of conversation.participants)\<close> that both send
  paths run after the message is stored, when none of its calls rejects.
\<close>

fun unread_loop :: "conversation \<Rightarrow> object_id \<Rightarrow> participant list \<Rightarrow> conversation" where
  "unread_loop c senderId [] = c"
| "unread_loop c senderId (p # ps) =
     unread_loop
       (if user p \<noteq> senderId \<and> isActive p then updateUnreadCount c (user p) 1 else c)
       senderId ps"

text \<open>
  Every store operation that a send awaits can reject: the lookup of the conversation, the
  message's save, the two \<^verbatim>\<open>populate\<close> calls after it, the conversation's save, and
  each \<^verbatim>\<open>updateUnreadCount\<close> (which saves the conversation). A \<open>failure\<close> names
  the operation that rejects in one run of a handler, if any; \<open>UpdateUnread j\<close> is the
  call of \<^verbatim>\<open>updateUnreadCount\<close> with index \<open>j\<close>, counted from 0. A rejection ends
  the handler: the socket handler's \<^verbatim>\<open>catch\<close> emits an error event, the route's
  rejection reaches the application's error handler, which answers with status 500.
\<close>

datatype failure =
  NoFailure | FindConversation | SaveMessage | Populate | SaveConversation | UpdateUnread nat

definition rejected_update :: "failure \<Rightarrow> nat option" where
  "rejected_update f = (case f of UpdateUnread j \<Rightarrow> Some j | _ \<Rightarrow> None)"

text \<open>
  The loop when the call with index \<open>stop\<close> rejects: the result is the conversation as
  the store holds it when the loop ends, and whether the loop ran to its end. The call
  that rejects leaves the stored conversation as the call before it wrote it.
\<close>

fun unread_loop_until ::
  "nat option \<Rightarrow> conversation \<Rightarrow> object_id \<Rightarrow> participant list \<Rightarrow> conversation \<times> bool" where
  "unread_loop_until stop c senderId [] = (c, True)"
| "unread_loop_until stop c senderId (p # ps) =
     (if user p \<noteq> senderId \<and> isActive p
      then (if stop = Some 0 then (c, False)
            else unread_loop_until (map_option (\<lambda>n. n - 1) stop)
                   (updateUnreadCount c (user p) 1) senderId ps)
      else unread_loop_until stop c senderId ps)"

text \<open>
  The \<^verbatim>\<open>content\<close> that a client sends is a string or an object. The constructor of
  the message document, given a string for the nested path \<^verbatim>\<open>content\<close>, drops it:
  the document has no content then.
\<close>

datatype body_content = ContentString js_string | ContentObject content

definition given_content :: "body_content \<Rightarrow> content" where
  "given_content c =
     (case c of
        ContentString txt \<Rightarrow>
          \<lparr>content_text = None, content_media = None, content_location = None,
           content_contact = None, content_sticker = None\<rparr>
      | ContentObject obj \<Rightarrow> obj)"

record send_data =
  data_conversationId :: object_id
  data_type :: "js_string option"
  data_content :: body_content
  data_replyTo :: "object_id option"
  data_clientId :: "js_string option"

text \<open>
  The socket event \<^verbatim>\<open>message:send\<close>. The result is the server state the handler leaves
  and either the error event it emits or the stored message with its id. The events
  emitted to rooms do not touch the state and are left out.
\<close>

definition socket_message_send ::
  "server \<Rightarrow> socket \<Rightarrow> send_data \<Rightarrow> date \<Rightarrow> failure \<Rightarrow>
   server \<times> (error + object_id \<times> message)" where
  "socket_message_send s sock data now failure =
     (if failure = FindConversation then (s, Inl (SocketError ''Failed to send message''))
      else case conversations s (data_conversationId data) of
        None \<Rightarrow> (s, Inl (SocketError ''Conversation not found''))
      | Some conv \<Rightarrow>
          if isParticipant conv (socket_userId sock) then
            (let newId = next_object_id s;
                 s0 = s\<lparr>next_object_id := Suc newId\<rparr>;
                 t = (case data_type data of
                        None \<Rightarrow> ascii ''text''
                      | Some t' \<Rightarrow> if t' = [] then ascii ''text'' else t')
             in case message_type_of t of
                  None \<Rightarrow> (s0, Inl (SocketError ''Failed to send message''))
                | Some ty \<Rightarrow>
                    (let newMessage =
                           new_Message (data_conversationId data) (socket_userId sock) ty
                             (given_content (data_content data)) (data_replyTo data) None
                             \<lparr>clientId = data_clientId data, deviceId = auth_deviceId sock,
                              platform = auth_platform sock, version = auth_version sock\<rparr>
                     in case save_message s0 (failure \<noteq> SaveMessage) newId newMessage of
                          None \<Rightarrow> (s0, Inl (SocketError ''Failed to send message''))
                        | Some s1 \<Rightarrow>
                            if failure = Populate \<or> failure = SaveConversation
                            then (s1, Inl (SocketError ''Failed to send message''))
                            else
                              (let c1 = conv\<lparr>lastMessage := Some newId,
                                                       lastMessageAt := now\<rparr>;
                                   r = unread_loop_until (rejected_update failure) c1
                                         (socket_userId sock) (participants c1);
                                   s2 = s1\<lparr>conversations :=
                                            (conversations s1)(data_conversationId data \<mapsto>
                                               fst r)\<rparr>
                               in if snd r then (s2, Inr (newId, newMessage))
                                  else (s2, Inl (SocketError ''Failed to send message'')))))
          else (s, Inl (SocketError ''Not a participant of this conversation'')))"

text \<open>
  \<^verbatim>\<open>POST /api/messages/conversations/:conversationId/messages\<close>. The route gives
  the constructor \<^verbatim>\<open>type === 'text' ? { text: content } : content\<close>. An object
  given as the text of a text message cannot be cast to a string, which makes the
  document invalid, so its save rejects (\<open>None\<close>).
\<close>

record message_body =
  body_content :: body_content
  body_type :: "js_string option"
  body_replyTo :: "object_id option"
  body_clientId :: "js_string option"
  header_deviceId :: "js_string option"
  header_platform :: "js_string option"
  header_version :: "js_string option"

definition route_content :: "js_string \<Rightarrow> body_content \<Rightarrow> content option" where
  "route_content t c =
     (if t = ascii ''text''
      then (case c of
              ContentString txt \<Rightarrow>
                Some \<lparr>content_text = Some txt, content_media = None, content_location = None,
                      content_contact = None, content_sticker = None\<rparr>
            | ContentObject obj \<Rightarrow> None)
      else Some (given_content c))"

text \<open>
  The validators of the route: \<^verbatim>\<open>content\<close> is not empty, and \<^verbatim>\<open>type\<close>, when
  given, is one of eight names (\<^verbatim>\<open>system\<close> is not among them).
\<close>

definition message_body_valid :: "message_body \<Rightarrow> bool" where
  "message_body_valid body =
     (body_content body \<noteq> ContentString [] \<and>
      (case body_type body of
         None \<Rightarrow> True
       | Some t \<Rightarrow> t \<in> set [ascii ''text'', ascii ''image'', ascii ''video'', ascii ''audio'',
                             ascii ''file'', ascii ''location'', ascii ''contact'',
                             ascii ''sticker'']))"

definition post_message_route ::
  "server \<Rightarrow> object_id \<Rightarrow> object_id \<Rightarrow> message_body \<Rightarrow> date \<Rightarrow> failure \<Rightarrow>
   server \<times> (error + object_id \<times> message)" where
  "post_message_route s userId conversationId body now failure =
     (if message_body_valid body
      then if failure = FindConversation then (s, Inl (HttpError 500 ''Something went wrong!''))
      else case conversations s conversationId of
        None \<Rightarrow> (s, Inl (HttpError 404 ''Conversation not found''))
      | Some conv \<Rightarrow>
          if isParticipant conv userId then
            (let t = (case body_type body of None \<Rightarrow> ascii ''text'' | Some t' \<Rightarrow> t');
                 newId = next_object_id s;
                 s0 = s\<lparr>next_object_id := Suc newId\<rparr>
             in case (message_type_of t, route_content t (body_content body)) of
                  (Some ty, Some c) \<Rightarrow>
                    (let newMessage =
                           new_Message conversationId userId ty c (body_replyTo body) None
                             \<lparr>clientId = body_clientId body, deviceId = header_deviceId body,
                              platform = header_platform body, version = header_version body\<rparr>
                     in case save_message s0 (failure \<noteq> SaveMessage) newId newMessage of
                          None \<Rightarrow> (s0, Inl (HttpError 500 ''Something went wrong!''))
                        | Some s1 \<Rightarrow>
                            if failure = Populate \<or> failure = SaveConversation
                            then (s1, Inl (HttpError 500 ''Something went wrong!''))
                            else
                              (let c1 = conv\<lparr>lastMessage := Some newId,
                                                       lastMessageAt := now\<rparr>;
                                   r = unread_loop_until (rejected_update failure) c1 userId
                                         (participants c1);
                                   s2 = s1\<lparr>conversations :=
                                            (conversations s1)(conversationId \<mapsto> fst r)\<rparr>
                               in if snd r then (s2, Inr (newId, newMessage))
                                  else (s2, Inl (HttpError 500 ''Something went wrong!''))))
                | _ \<Rightarrow> (s0, Inl (HttpError 500 ''Something went wrong!'')))
          else (s, Inl (HttpError 403 ''Not a participant of this conversation''))
      else (s, Inl (HttpError 400 ''Validation failed'')))"

subsection \<open>Operations on a stored message\<close>

text \<open>
  The middleware \<^verbatim>\<open>authorizeMessageAccess\<close>. Its argument \<open>messageId\<close> is the value of
  \<^verbatim>\<open>req.params.messageId || req.body.messageId\<close>; \<^verbatim>\<open>findById\<close> of an absent id
  finds nothing. On success the request carries the message found.
\<close>

definition authorizeMessageAccess ::
  "server \<Rightarrow> object_id \<Rightarrow> object_id option \<Rightarrow> error + object_id \<times> message" where
  "authorizeMessageAccess s userId messageId =
     (case messageId of
        None \<Rightarrow> Inl (HttpError 404 ''Message not found.'')
      | Some mid \<Rightarrow>
          (case messages s mid of
             None \<Rightarrow> Inl (HttpError 404 ''Message not found.'')
           | Some msg \<Rightarrow>
               if sender msg = userId then Inr (mid, msg)
               else (case conversations s (conversation msg) of
                       None \<Rightarrow> Inl (HttpError 404 ''Conversation not found.'')
                     | Some conv \<Rightarrow>
                         if isParticipant conv userId then Inr (mid, msg)
                         else Inl (HttpError 403
                                ''Access denied. Not authorized to access this message.''))))"





subsection \<open>Forwarding\<close>

text \<open>
  \<^verbatim>\<open>forwardMessage(targetConversationId, userId)\<close> creates a message with the type and
  content of this one and a reference to this message and its sender.
\<close>

definition forwardMessage :: "object_id \<Rightarrow> message \<Rightarrow> object_id \<Rightarrow> object_id \<Rightarrow> message" where
  "forwardMessage thisId m targetConversationId userId =
     new_Message targetConversationId userId (msg_type m) (content m) None
       (Some \<lparr>forwarded_message = thisId, forwarded_user = sender m\<rparr>)
       \<lparr>clientId = None, deviceId = None, platform = None, version = None\<rparr>"

text \<open>
  The query of the forward route,
  \<^verbatim>\<open>Conversation.find({ _id: { $in: conversationIds }, 'participants.user': userId,
  'participants.isActive': true })\<close>. Each stored conversation whose id is listed is
  returned once. A condition on a dotted path into an array of subdocuments holds when
  some element of the array satisfies it, and the two conditions on
  \<^verbatim>\<open>participants\<close> are separate conditions: they are not tied to the same element
  (that would take \<^verbatim>\<open>$elemMatch\<close>).
\<close>

definition forward_query :: "object_id \<Rightarrow> conversation \<Rightarrow> bool" where
  "forward_query userId c =
     (list_ex (\<lambda>p. user p = userId) (participants c) \<and> list_ex isActive (participants c))"

definition find_forward_targets ::
  "server \<Rightarrow> object_id list \<Rightarrow> object_id \<Rightarrow> (object_id \<times> conversation) list" where
  "find_forward_targets s conversationIds userId =
     filter (\<lambda>(cid, c). forward_query userId c)
       (List.map_filter (\<lambda>cid. map_option (Pair cid) (conversations s cid))
          (remdups conversationIds))"

fun forward_loop ::
  "server \<Rightarrow> object_id \<Rightarrow> message \<Rightarrow> object_id \<Rightarrow> date \<Rightarrow> (object_id \<times> conversation) list \<Rightarrow>
   server \<times> (object_id \<times> message) list" where
  "forward_loop s origId orig userId now [] = (s, [])"
| "forward_loop s origId orig userId now ((cid, conv) # rest) =
     (let newId = next_object_id s;
          forwardedMessage = forwardMessage origId orig cid userId;
          s1 = s\<lparr>messages := (messages s)(newId \<mapsto> forwardedMessage),
                 next_object_id := Suc newId\<rparr>;
          s2 = s1\<lparr>conversations := (conversations s1)(cid \<mapsto>
                     conv\<lparr>lastMessage := Some newId, lastMessageAt := now\<rparr>)\<rparr>;
          r = forward_loop s2 origId orig userId now rest
      in (fst r, (newId, forwardedMessage) # snd r))"

text \<open>
  \<^verbatim>\<open>POST /api/messages/:id/forward\<close>: the validator wants a non-empty array of ids; the
  route forwards when the query returned as many conversations as ids were given.
\<close>

definition forward_route ::
  "server \<Rightarrow> object_id \<Rightarrow> object_id option \<Rightarrow> object_id list \<Rightarrow> date \<Rightarrow>
   server \<times> (error + (object_id \<times> message) list)" where
  "forward_route s userId messageId conversationIds now =
     (case authorizeMessageAccess s userId messageId of
        Inl e \<Rightarrow> (s, Inl e)
      | Inr (origId, originalMessage) \<Rightarrow>
          if length conversationIds < 1 then (s, Inl (HttpError 400 ''Validation failed''))
          else (let found = find_forward_targets s conversationIds userId
                in if length found \<noteq> length conversationIds
                   then (s, Inl (HttpError 400
                                  ''Some conversations not found or access denied''))
                   else (let r = forward_loop s origId originalMessage userId now found
                         in (fst r, Inr (snd r)))))"

subsection \<open>The invariant on reactions\<close>

text \<open>
  The message model's invariant on reactions: no token is stored with an empty list. A new
  message has it and every method of the model keeps it.
\<close>

definition no_empty_reactions :: "message \<Rightarrow> bool" where
  "no_empty_reactions m = (\<forall>t. reactions m t \<noteq> Some [])"

text \<open>Likewise, every token that the map holds is a key that the Map accepts.\<close>

definition stored_keys_valid :: "message \<Rightarrow> bool" where
  "stored_keys_valid m = (\<forall>t. reactions m t = None \<or> valid_map_key t)"

subsection \<open>Example data\<close>

text \<open>
  A direct conversation (id 10) that user 4 created with user 2, and a text message
  (id 50) that user 4 sent to it.
\<close>

definition hello :: message where
  "hello =
     new_Message 10 4 Text
       \<lparr>content_text = Some (ascii ''hi''), content_media = None, content_location = None,
        content_contact = None, content_sticker = None\<rparr>
       None None
       \<lparr>clientId = None, deviceId = None, platform = None, version = None\<rparr>"

definition chat :: conversation where
  "chat =
     \<lparr>conv_type = Direct, participants = new_conversation_participants 4 [2] 0,
      lastMessage = Some 50, lastMessageAt = 0, unreadCount = Map.empty, mutedBy = []\<rparr>"

text \<open>
  A group (id 11) that user 4 created with the participant list \<open>[2, 2]\<close>, and a
  group (id 12) that user 3 created with user 4, who has left it since.
\<close>

definition team :: conversation where
  "team =
     \<lparr>conv_type = Group, participants = new_conversation_participants 4 [2, 2] 0,
      lastMessage = None, lastMessageAt = 0, unreadCount = Map.empty, mutedBy = []\<rparr>"

definition club :: conversation where
  "club =
     removeParticipant
       \<lparr>conv_type = Group, participants = new_conversation_participants 3 [4] 0,
        lastMessage = None, lastMessageAt = 0, unreadCount = Map.empty, mutedBy = []\<rparr>
       4 7"

definition server0 :: server where
  "server0 =
     \<lparr>conversations = [10 \<mapsto> chat, 11 \<mapsto> team, 12 \<mapsto> club],
      messages = [50 \<mapsto> hello],
      connectedUsers = Map.empty, next_object_id = 100\<rparr>"

text \<open>Two connections of user 2, and a connection of user 4.\<close>

definition phone :: socket where
  "phone = \<lparr>socket_id = ascii ''h1'', socket_userId = 2, auth_deviceId = None,
             auth_platform = None, auth_version = None\<rparr>"

definition laptop :: socket where
  "laptop = \<lparr>socket_id = ascii ''h2'', socket_userId = 2, auth_deviceId = None,
              auth_platform = None, auth_version = None\<rparr>"

text \<open>The payload of a \<^verbatim>\<open>message:send\<close> event and the body of a POST: the text "yo".\<close>

definition yo_to :: "object_id \<Rightarrow> send_data" where
  "yo_to conversationId =
     \<lparr>data_conversationId = conversationId, data_type = None,
      data_content =
        ContentObject \<lparr>content_text = Some (ascii ''yo''), content_media = None,
                        content_location = None, content_contact = None,
                        content_sticker = None\<rparr>,
      data_replyTo = None, data_clientId = None\<rparr>"

definition yo_body :: message_body where
  "yo_body =
     \<lparr>body_content = ContentString (ascii ''yo''), body_type = None, body_replyTo = None,
      body_clientId = None, header_deviceId = None, header_platform = None,
      header_version = None\<rparr>"

definition yo_message :: "object_id \<Rightarrow> message" where
  "yo_message conversationId =
     new_Message conversationId 4 Text
       \<lparr>content_text = Some (ascii ''yo''), content_media = None, content_location = None,
        content_contact = None, content_sticker = None\<rparr>
       None None
       \<lparr>clientId = None, deviceId = None, platform = None, version = None\<rparr>"

definition desktop :: socket where
  "desktop = \<lparr>socket_id = ascii ''h3'', socket_userId = 4, auth_deviceId = None,
               auth_platform = None, auth_version = None\<rparr>"

text \<open>The token "+1", and the message 50 with the reaction "+1" of user 2.\<close>

definition plus_one :: js_string where
  "plus_one = ascii ''+1''"

definition hello_liked :: message where
  "hello_liked = hello\<lparr>reactions := [plus_one \<mapsto> [2]]\<rparr>"


section \<open>Reactions\<close>

lemma filter_other_users: "u \<notin> set us \<Longrightarrow> filter (\<lambda>i. i \<noteq> u) us = us"
  by (induction us) auto

text \<open>
  What \<^verbatim>\<open>addReaction\<close> does with a key that the Map accepts, and with a new key that it
  refuses.
\<close>

lemma addReaction_valid_key:
  "valid_map_key t \<Longrightarrow>
   addReaction m t u =
     Some (m\<lparr>reactions := (reactions m)(t \<mapsto>
             (case reactions m t of
                None \<Rightarrow> [u]
              | Some us \<Rightarrow> if u \<in> set us then us else us @ [u]))\<rparr>)"
  by (cases "reactions m t") (simp_all add: addReaction_def map_set_def Let_def map_upd_triv)

lemma addReaction_refused_key:
  "\<not> valid_map_key t \<Longrightarrow> reactions m t = None \<Longrightarrow> addReaction m t u = None"
  by (simp add: addReaction_def map_set_def)

lemma addReaction_Some:
  assumes "addReaction m t u = Some m'"
  shows "m' = m\<lparr>reactions := (reactions m)(t \<mapsto>
                 (case reactions m t of
                    None \<Rightarrow> [u]
                  | Some us \<Rightarrow> if u \<in> set us then us else us @ [u]))\<rparr>"
proof (cases "reactions m t")
  case None
  with assms show ?thesis
    by (simp add: addReaction_def map_set_def Let_def split: if_splits)
next
  case (Some us)
  with assms show ?thesis
    by (simp add: addReaction_def map_set_def Let_def map_upd_triv split: if_splits)
qed

lemma addReaction_again: "addReaction m t u = Some m' \<Longrightarrow> addReaction m' t u = Some m'"
proof -
  assume a: "addReaction m t u = Some m'"
  have r: "\<exists>us. reactions m' t = Some us \<and> u \<in> set us"
    using addReaction_Some [OF a] by (cases "reactions m t") simp_all
  then obtain us where us: "reactions m' t = Some us" "u \<in> set us" by blast
  then show ?thesis
    by (simp add: addReaction_def Let_def)
qed

text \<open>The two invariants of the reaction map hold of a new message and are kept.\<close>

lemma no_empty_reactions_new_Message: "no_empty_reactions (new_Message c s ty b r f md)"
  by (simp add: no_empty_reactions_def new_Message_def)

lemma no_empty_reactions_addReaction:
  "no_empty_reactions m \<Longrightarrow> addReaction m t u = Some m' \<Longrightarrow> no_empty_reactions m'"
proof -
  assume inv: "no_empty_reactions m" and a: "addReaction m t u = Some m'"
  have "reactions m' k \<noteq> Some []" for k
  proof (cases "k = t")
    case True
    then show ?thesis
      using addReaction_Some [OF a] by (cases "reactions m t") auto
  next
    case False
    then show ?thesis
      using addReaction_Some [OF a] inv by (simp add: no_empty_reactions_def)
  qed
  then show ?thesis
    by (simp add: no_empty_reactions_def)
qed

lemma no_empty_reactions_removeReaction:
  "no_empty_reactions m \<Longrightarrow> no_empty_reactions (removeReaction m t u)"
  by (simp add: no_empty_reactions_def removeReaction_def Let_def split: option.splits)

lemma no_empty_reactions_other_methods:
  "no_empty_reactions m \<Longrightarrow>
     no_empty_reactions (editMessage m txt now) \<and> no_empty_reactions (deleteMessage m u now) \<and>
     no_empty_reactions (markAsRead m u now) \<and> no_empty_reactions (markAsDelivered m u now)"
  by (simp add: no_empty_reactions_def editMessage_def deleteMessage_def markAsRead_def
      markAsDelivered_def split: option.splits)

lemma stored_keys_valid_new_Message: "stored_keys_valid (new_Message c s ty b r f md)"
  by (simp add: stored_keys_valid_def new_Message_def)

lemma stored_keys_valid_addReaction:
  assumes "stored_keys_valid m" and "addReaction m t u = Some m'"
  shows "stored_keys_valid m'"
proof -
  have "valid_map_key t"
  proof (cases "reactions m t")
    case None
    with assms(2) show ?thesis
      by (cases "valid_map_key t") (simp_all add: addReaction_def map_set_def)
  next
    case (Some us)
    from assms(1) have "reactions m t = None \<or> valid_map_key t"
      by (simp add: stored_keys_valid_def)
    with Some show ?thesis by simp
  qed
  moreover have "reactions m k = None \<or> valid_map_key k" for k
    using assms(1) by (simp add: stored_keys_valid_def)
  ultimately have "reactions m' k = None \<or> valid_map_key k" for k
    using addReaction_Some [OF assms(2)] by (cases "k = t") simp_all
  then show ?thesis
    by (simp add: stored_keys_valid_def)
qed

lemma stored_keys_valid_removeReaction:
  assumes "stored_keys_valid m"
  shows "stored_keys_valid (removeReaction m t u)"
proof -
  have k: "reactions m k = None \<or> valid_map_key k" for k
    using assms by (simp add: stored_keys_valid_def)
  have "reactions (removeReaction m t u) k = None \<or> valid_map_key k" for k
    using k [of k] k [of t]
    by (cases "reactions m t") (simp_all add: removeReaction_def Let_def)
  then show ?thesis
    by (simp add: stored_keys_valid_def)
qed

lemma add_then_remove:
  assumes "reactions m t = None \<or> (\<exists>us. reactions m t = Some us \<and> set us \<subseteq> {u})"
  shows "removeReaction (case addReaction m t u of None \<Rightarrow> m | Some m' \<Rightarrow> m') t u =
           m\<lparr>reactions := (reactions m)(t := None)\<rparr>"
proof (cases "addReaction m t u")
  case None
  show ?thesis
  proof (cases "reactions m t")
    case None
    then show ?thesis
      using \<open>addReaction m t u = None\<close> by (simp add: removeReaction_def fun_upd_idem)
  next
    case (Some us)
    with assms have "set us \<subseteq> {u}" by simp
    then have "filter (\<lambda>i. i \<noteq> u) us = []"
      by (auto simp: filter_empty_conv)
    with Some show ?thesis
      using \<open>addReaction m t u = None\<close> by (simp add: removeReaction_def)
  qed
next
  case (Some m')
  note m' = addReaction_Some [OF Some]
  show ?thesis
  proof (cases "reactions m t")
    case None
    with m' Some show ?thesis
      by (simp add: removeReaction_def)
  next
    case (Some us)
    with assms have "set us \<subseteq> {u}" by simp
    then have "filter (\<lambda>i. i \<noteq> u) us = []"
      by (auto simp: filter_empty_conv)
    with Some m' \<open>addReaction m t u = Some m'\<close> show ?thesis
      by (simp add: removeReaction_def Let_def)
  qed
qed

lemma removeReaction_never_empty: "reactions (removeReaction m t u) t \<noteq> Some []"
  by (simp add: removeReaction_def Let_def split: option.splits)

lemma plus_one_valid: "valid_map_key plus_one \<and> plus_one \<noteq> []"
  by (simp add: valid_map_key_def plus_one_def ascii_def)

lemma hello_reactions: "reactions hello t = None"
  by (simp add: hello_def new_Message_def)

lemma hello_liked: "addReaction hello plus_one 2 = Some hello_liked"
  using plus_one_valid
  by (simp add: addReaction_valid_key hello_reactions hello_liked_def)
     (simp add: hello_def new_Message_def)

text \<open>
  The scenario of the specification: A reacts, then B reacts with the same token, then A
  removes the reaction; the token's list holds B alone.
\<close>

lemma reaction_scenario:
  assumes "valid_map_key t"
  shows "\<exists>a b. addReaction hello t 4 = Some a \<and> addReaction a t 2 = Some b \<and>
               reactions (removeReaction b t 4) t = Some [2]"
  using assms
  by (simp add: addReaction_valid_key hello_reactions removeReaction_def)

text \<open>
  C5. Reaction round-trip and idempotence. When no user other than \<open>u\<close> has reacted to
  \<open>m\<close> with token \<open>t\<close>, the message that \<^verbatim>\<open>addReaction(t, u)\<close> leaves (\<open>m\<close> itself
  when the call throws) followed by \<^verbatim>\<open>removeReaction(t, u)\<close> has no entry for \<open>t\<close>
  and every other token as it was. \<^verbatim>\<open>removeReaction\<close> never leaves a token with an
  empty list. A second \<^verbatim>\<open>addReaction(t, u)\<close> after a first one that returned changes
  nothing. For a key that the Map accepts the call returns and the token's list holds
  \<open>u\<close>; for a new key that the Map refuses the call throws and nothing is stored.
\<close>

theorem reaction_round_trip:
  "(reactions m t = None \<or> (\<exists>us. reactions m t = Some us \<and> set us \<subseteq> {u}) \<longrightarrow>
      removeReaction (case addReaction m t u of None \<Rightarrow> m | Some m' \<Rightarrow> m') t u =
        m\<lparr>reactions := (reactions m)(t := None)\<rparr> \<and>
      reactions (removeReaction (case addReaction m t u of None \<Rightarrow> m | Some m' \<Rightarrow> m') t u) t =
        None) \<and>
   reactions (removeReaction m t u) t \<noteq> Some [] \<and>
   (addReaction m t u = Some m1 \<longrightarrow> addReaction m1 t u = Some m1) \<and>
   (valid_map_key t \<longrightarrow>
      (\<exists>m' us. addReaction m t u = Some m' \<and> reactions m' t = Some us \<and> u \<in> set us)) \<and>
   (\<not> valid_map_key t \<and> reactions m t = None \<longrightarrow> addReaction m t u = None)"
proof -
  have a: "reactions m t = None \<or> (\<exists>us. reactions m t = Some us \<and> set us \<subseteq> {u}) \<longrightarrow>
      removeReaction (case addReaction m t u of None \<Rightarrow> m | Some m' \<Rightarrow> m') t u =
        m\<lparr>reactions := (reactions m)(t := None)\<rparr> \<and>
      reactions (removeReaction (case addReaction m t u of None \<Rightarrow> m | Some m' \<Rightarrow> m') t u) t =
        None"
    using add_then_remove [of m t u] by simp
  have b: "valid_map_key t \<longrightarrow>
      (\<exists>m' us. addReaction m t u = Some m' \<and> reactions m' t = Some us \<and> u \<in> set us)"
    by (cases "reactions m t") (simp_all add: addReaction_valid_key)
  show ?thesis
    using a b addReaction_again [of m t u m1] addReaction_refused_key [of t m u]
      removeReaction_never_empty [of m t u]
    by blast
qed

theorem reaction_round_trip_witness:
  "reactions hello plus_one = None \<and> valid_map_key plus_one \<and>
   addReaction hello plus_one 2 = Some hello_liked \<and>
   reactions (removeReaction hello_liked plus_one 2) plus_one = None \<and>
   addReaction hello_liked plus_one 2 = Some hello_liked \<and>
   \<not> valid_map_key (ascii ''a.b'') \<and> reactions hello (ascii ''a.b'') = None \<and>
   addReaction hello (ascii ''a.b'') 2 = None"
proof -
  have h: "reactions hello plus_one = None" "reactions hello (ascii ''a.b'') = None"
    by (simp_all add: hello_reactions)
  have v: "valid_map_key plus_one"
    using plus_one_valid by simp
  have n: "\<not> valid_map_key (ascii ''a.b'')"
    by (simp add: valid_map_key_def ascii_def)
  have l: "addReaction hello plus_one 2 = Some hello_liked"
    by (rule hello_liked)
  show ?thesis
    using h v n l
      reaction_round_trip [of hello plus_one 2 hello_liked]
      reaction_round_trip [of hello "ascii ''a.b''" 2 hello_liked]
    by simp
qed

text \<open>
  C9. \<^verbatim>\<open>removeReaction(t, u)\<close> on a message of the model (no token stored with an empty
  list) whose token \<open>t\<close> has no entry, or whose list for \<open>t\<close> does not hold \<open>u\<close>,
  returns the message unchanged. The function is total: it has no failing branch.
\<close>

theorem removeReaction_absent_unchanged:
  assumes "no_empty_reactions m"
    and "reactions m t = None \<or> (\<exists>us. reactions m t = Some us \<and> u \<notin> set us)"
  shows "removeReaction m t u = m"
proof (cases "reactions m t")
  case None
  then show ?thesis by (simp add: removeReaction_def)
next
  case (Some us)
  with assms have "us \<noteq> []" and "u \<notin> set us"
    by (auto simp: no_empty_reactions_def)
  with Some show ?thesis
    by (simp add: removeReaction_def filter_other_users map_upd_triv)
qed

theorem removeReaction_absent_unchanged_witness:
  "no_empty_reactions hello \<and> reactions hello plus_one = None \<and>
   removeReaction hello plus_one 7 = hello \<and>
   no_empty_reactions hello_liked \<and>
   reactions hello_liked plus_one = Some [2] \<and>
   removeReaction hello_liked plus_one 7 = hello_liked"
proof -
  have a: "no_empty_reactions hello"
    unfolding hello_def by (rule no_empty_reactions_new_Message)
  have b: "reactions hello plus_one = None"
    by (rule hello_reactions)
  have c: "no_empty_reactions hello_liked"
    using a hello_liked by (rule no_empty_reactions_addReaction)
  have d: "reactions hello_liked plus_one = Some [2]"
    by (simp add: hello_liked_def)
  show ?thesis
    using a b c d
      removeReaction_absent_unchanged [of hello plus_one 7]
      removeReaction_absent_unchanged [of hello_liked plus_one 7]
    by simp
qed

section \<open>Editing\<close>

text \<open>
  C10. Frame condition of \<^verbatim>\<open>editMessage\<close>: for a message of any type it sets
  \<^verbatim>\<open>content.text\<close>, \<^verbatim>\<open>isEdited\<close> and \<^verbatim>\<open>editedAt\<close>, and every other field
  (sender, conversation, type, replyTo, forwardedFrom, reactions, readBy, deliveredTo,
  isDeleted, the deletion stamp, the metadata and the other parts of the content) keeps
  its value.
\<close>

theorem editMessage_frame:
  "content_text (content (editMessage m txt now)) = Some txt \<and>
   isEdited (editMessage m txt now) = True \<and>
   editedAt (editMessage m txt now) = Some now \<and>
   sender (editMessage m txt now) = sender m \<and>
   conversation (editMessage m txt now) = conversation m \<and>
   msg_type (editMessage m txt now) = msg_type m \<and>
   replyTo (editMessage m txt now) = replyTo m \<and>
   forwardedFrom (editMessage m txt now) = forwardedFrom m \<and>
   reactions (editMessage m txt now) = reactions m \<and>
   readBy (editMessage m txt now) = readBy m \<and>
   deliveredTo (editMessage m txt now) = deliveredTo m \<and>
   isDeleted (editMessage m txt now) = isDeleted m \<and>
   deletedAt (editMessage m txt now) = deletedAt m \<and>
   deletedBy (editMessage m txt now) = deletedBy m \<and>
   metadata (editMessage m txt now) = metadata m \<and>
   content_media (content (editMessage m txt now)) = content_media (content m) \<and>
   content_location (content (editMessage m txt now)) = content_location (content m) \<and>
   content_contact (content (editMessage m txt now)) = content_contact (content m) \<and>
   content_sticker (content (editMessage m txt now)) = content_sticker (content m)"
  by (simp add: editMessage_def)

section \<open>Participants\<close>

lemma find_snoc:
  "find P (xs @ [x]) =
     (case find P xs of None \<Rightarrow> (if P x then Some x else None) | Some y \<Rightarrow> Some y)"
  by (induction xs) auto

lemma find_update_first:
  "(\<And>x. P x \<Longrightarrow> P (f x)) \<Longrightarrow> find P (update_first P f xs) = map_option f (find P xs)"
  by (induction xs) auto

lemma update_first_again:
  "(\<And>x. P x \<Longrightarrow> P (f x)) \<Longrightarrow> (\<And>x. g (f x) = g x) \<Longrightarrow>
   update_first P g (update_first P f xs) = update_first P g xs"
  by (induction xs) auto

lemma map_update_first: "(\<And>x. g (f x) = g x) \<Longrightarrow> map g (update_first P f xs) = map g xs"
  by (induction xs) auto

lemma list_ex_update_first_single:
  "length (filter P xs) \<le> 1 \<Longrightarrow> (\<And>x. P x \<Longrightarrow> \<not> Q (f x)) \<Longrightarrow>
   \<not> list_ex (\<lambda>x. P x \<and> Q x) (update_first P f xs)"
proof (induction xs)
  case Nil
  then show ?case by simp
next
  case (Cons x xs)
  show ?case
  proof (cases "P x")
    case True
    with Cons.prems(1) have "filter P xs = []" by simp
    then have "\<not> list_ex (\<lambda>x. P x \<and> Q x) xs"
      by (auto simp: filter_empty_conv list_ex_iff)
    with True Cons.prems(2) show ?thesis by simp
  next
    case False
    with Cons show ?thesis by simp
  qed
qed

lemma isParticipant_addParticipant:
  "isParticipant (addParticipant c u r now) u =
     (isParticipant c u \<or> u \<notin> user ` set (participants c))"
proof (cases "find (\<lambda>p. user p = u) (participants c)")
  case None
  then have "u \<notin> user ` set (participants c)"
    by (auto simp: find_None_iff)
  with None show ?thesis
    by (simp add: addParticipant_def isParticipant_def list_ex_iff)
next
  case (Some p)
  then have "u \<in> user ` set (participants c)"
    by (auto simp: find_Some_iff)
  with Some show ?thesis
    by (simp add: addParticipant_def)
qed

lemma addParticipant_again:
  "addParticipant (addParticipant c u r now) u r' now' = addParticipant c u r now"
  by (cases "find (\<lambda>p. user p = u) (participants c)")
     (simp_all add: addParticipant_def find_snoc)

lemma removeParticipant_again:
  "removeParticipant (removeParticipant c u now) u now' = removeParticipant c u now'"
  by (simp add: removeParticipant_def update_first_again)

lemma not_isParticipant_removeParticipant:
  "length (filter (\<lambda>p. user p = u) (participants c)) \<le> 1 \<Longrightarrow>
   \<not> isParticipant (removeParticipant c u now) u"
  by (simp add: isParticipant_def removeParticipant_def list_ex_update_first_single)

text \<open>Neither operation changes which users have an entry, beyond the one appended.\<close>

lemma users_removeParticipant:
  "map user (participants (removeParticipant c u now)) = map user (participants c)"
  by (simp add: removeParticipant_def map_update_first)

lemma users_addParticipant:
  "distinct (map user (participants c)) \<Longrightarrow>
   distinct (map user (participants (addParticipant c u r now)))"
proof (cases "find (\<lambda>p. user p = u) (participants c)")
  case None
  assume d: "distinct (map user (participants c))"
  from None have "u \<notin> user ` set (participants c)"
    by (auto simp: find_None_iff)
  with None d show ?thesis
    by (simp add: addParticipant_def)
next
  case (Some p)
  assume "distinct (map user (participants c))"
  with Some show ?thesis
    by (simp add: addParticipant_def)
qed

text \<open>
  When the creation route was given a user twice, that user has two entries, and
  \<^verbatim>\<open>removeParticipant\<close> deactivates the first only.
\<close>

lemma second_entry_stays_active: "isParticipant (removeParticipant team 2 5) 2"
  by (simp add: team_def new_conversation_participants_def removeParticipant_def
      isParticipant_def)

text \<open>
  C4, the claim as stated fails: user 2 leaves the direct conversation and is added again;
  \<^verbatim>\<open>addParticipant\<close> finds the old entry and does nothing, so user 2 is not an active
  participant after \<^verbatim>\<open>addParticipant\<close>.
\<close>

theorem rejoin_stays_inactive:
  "isParticipant chat 2 \<and>
   \<not> isParticipant (removeParticipant chat 2 5) 2 \<and>
   \<not> isParticipant (addParticipant (removeParticipant chat 2 5) 2 Member 6) 2"
  by (simp add: chat_def new_conversation_participants_def removeParticipant_def
      addParticipant_def isParticipant_def)

text \<open>
  C4, amended. When \<open>u\<close> has at most one participant entry in \<open>c\<close>, \<open>u\<close> is not an
  active participant after \<^verbatim>\<open>removeParticipant\<close>. After \<^verbatim>\<open>addParticipant\<close>,
  \<open>u\<close> is an active participant exactly when \<open>u\<close> was one before or had no entry:
  the operation does nothing for a user who has an entry, active or not. A second
  \<^verbatim>\<open>addParticipant\<close> changes nothing, and a second \<^verbatim>\<open>removeParticipant\<close> only
  renews \<^verbatim>\<open>leftAt\<close>.
\<close>

theorem participant_membership:
  "(length (filter (\<lambda>p. user p = u) (participants c)) \<le> 1 \<longrightarrow>
      \<not> isParticipant (removeParticipant c u now) u) \<and>
   isParticipant (addParticipant c u r now) u =
     (isParticipant c u \<or> u \<notin> user ` set (participants c)) \<and>
   addParticipant (addParticipant c u r now) u r' now' = addParticipant c u r now \<and>
   removeParticipant (removeParticipant c u now) u now' = removeParticipant c u now'"
  by (simp add: not_isParticipant_removeParticipant isParticipant_addParticipant
      addParticipant_again removeParticipant_again)

theorem participant_membership_witness:
  "length (filter (\<lambda>p. user p = 2) (participants chat)) \<le> 1 \<and>
   \<not> isParticipant (removeParticipant chat 2 5) 2 \<and>
   isParticipant (addParticipant chat 2 Member 6) 2 \<and>
   addParticipant (addParticipant chat 2 Member 6) 2 Member 8 = addParticipant chat 2 Member 6 \<and>
   removeParticipant (removeParticipant chat 2 5) 2 8 = removeParticipant chat 2 8"
proof -
  have h: "length (filter (\<lambda>p. user p = 2) (participants chat)) \<le> 1"
    by (simp add: chat_def new_conversation_participants_def)
  have a: "isParticipant chat 2"
    by (simp add: chat_def new_conversation_participants_def isParticipant_def)
  show ?thesis
    using h a
      participant_membership [where u = 2 and c = chat and now = 5 and r = Member
        and r' = Member and now' = 8]
      participant_membership [where u = 2 and c = chat and now = 6 and r = Member
        and r' = Member and now' = 8]
    by simp
qed

section \<open>Unread counters\<close>

lemma currentCount_updateUnreadCount:
  "currentCount (updateUnreadCount c u k) v =
     (if v = u then currentCount c u + k else currentCount c v)"
  by (simp add: currentCount_def updateUnreadCount_def)

lemma currentCount_resetUnreadCount:
  "currentCount (resetUnreadCount c u) v = (if v = u then 0 else currentCount c v)"
  by (simp add: currentCount_def resetUnreadCount_def)

text \<open>
  The loop adds to a user's counter the number of active entries that user has in the
  list, and nothing to the sender's counter.
\<close>

lemma unread_loop_count:
  "currentCount (unread_loop c s ps) u =
     currentCount c u +
     (if u = s then 0 else int (length (filter (\<lambda>p. user p = u \<and> isActive p) ps)))"
  by (induction ps arbitrary: c) (auto simp: currentCount_updateUnreadCount)

lemma unread_loop_frame:
  "participants (unread_loop c s ps) = participants c \<and>
   lastMessage (unread_loop c s ps) = lastMessage c \<and>
   lastMessageAt (unread_loop c s ps) = lastMessageAt c \<and>
   conv_type (unread_loop c s ps) = conv_type c \<and>
   mutedBy (unread_loop c s ps) = mutedBy c"
  by (induction ps arbitrary: c) (auto simp: updateUnreadCount_def)

lemma filter_absent_key: "k \<notin> g ` set xs \<Longrightarrow> filter (\<lambda>q. g q = k \<and> Q q) xs = []"
  by (induction xs) auto

lemma single_entry_count:
  "distinct (map user ps) \<Longrightarrow> p \<in> set ps \<Longrightarrow> isActive p \<Longrightarrow>
   length (filter (\<lambda>q. user q = user p \<and> isActive q) ps) = 1"
proof (induction ps)
  case Nil
  then show ?case by simp
next
  case (Cons q ps)
  show ?case
  proof (cases "q = p")
    case True
    with Cons.prems have "user p \<notin> user ` set ps" by simp
    then have "filter (\<lambda>q. user q = user p \<and> isActive q) ps = []"
      by (rule filter_absent_key)
    with True Cons.prems show ?thesis by simp
  next
    case False
    with Cons.prems have "p \<in> set ps" by simp
    with Cons.prems have "user q \<noteq> user p" by auto
    with Cons \<open>p \<in> set ps\<close> show ?thesis by simp
  qed
qed

text \<open>
  With one entry per user, a send adds exactly 1 to the counter of every active
  participant other than the sender; the sender's counter and the counters of users
  without an active entry stay; a reset gives 0; no counter becomes negative.
\<close>

lemma unread_loop_exactly_one:
  "distinct (map user ps) \<Longrightarrow> p \<in> set ps \<Longrightarrow> isActive p \<Longrightarrow> user p \<noteq> s \<Longrightarrow>
   currentCount (unread_loop c s ps) (user p) = currentCount c (user p) + 1"
  by (simp add: unread_loop_count single_entry_count)

lemma unread_loop_sender: "currentCount (unread_loop c s ps) s = currentCount c s"
  by (simp add: unread_loop_count)

lemma unread_loop_nonneg:
  "0 \<le> currentCount c u \<Longrightarrow> 0 \<le> currentCount (unread_loop c s ps) u"
  by (simp add: unread_loop_count)

lemma resetUnreadCount_nonneg:
  "0 \<le> currentCount c v \<Longrightarrow> 0 \<le> currentCount (resetUnreadCount c u) v"
  by (simp add: currentCount_resetUnreadCount)

section \<open>Sending\<close>

lemma unread_loop_until_frame:
  "participants (fst (unread_loop_until k c s ps)) = participants c \<and>
   lastMessage (fst (unread_loop_until k c s ps)) = lastMessage c \<and>
   lastMessageAt (fst (unread_loop_until k c s ps)) = lastMessageAt c \<and>
   conv_type (fst (unread_loop_until k c s ps)) = conv_type c \<and>
   mutedBy (fst (unread_loop_until k c s ps)) = mutedBy c"
  by (induction ps arbitrary: k c) (auto simp: updateUnreadCount_def)

lemma unread_loop_until_done:
  "snd (unread_loop_until k c s ps) \<Longrightarrow> fst (unread_loop_until k c s ps) = unread_loop c s ps"
  by (induction ps arbitrary: k c) (auto split: if_splits)

lemma unread_loop_until_None: "unread_loop_until None c s ps = (unread_loop c s ps, True)"
  by (induction ps arbitrary: c) auto

text \<open>
  What a send leaves behind, for each handler. Either nothing was written and the handler
  answers an error; or the message was valid, the store accepted it, and it is stored
  under the new id with the content of the request. In that case either the conversations
  are as before and the handler answers an error (a rejection before the conversation's
  save), or the conversation of the request, and no other, holds the new pointer and the
  counters that the unread loop reached.
\<close>

lemma socket_send_outcome:
  "case socket_message_send s sock d now f of
     (s', out) \<Rightarrow>
       (messages s' = messages s \<and> conversations s' = conversations s \<and> isl out) \<or>
       (case conversations s (data_conversationId d) of
          None \<Rightarrow> False
        | Some conv \<Rightarrow>
            isParticipant conv (socket_userId sock) \<and> f \<noteq> SaveMessage \<and>
            f \<noteq> FindConversation \<and>
            (case messages s' (next_object_id s) of
               None \<Rightarrow> False
             | Some m \<Rightarrow>
                 valid_message m \<and> content m = given_content (data_content d) \<and>
                 messages s' = (messages s)(next_object_id s \<mapsto> m) \<and>
                 ((conversations s' = conversations s \<and> isl out) \<or>
                  (conversations s' =
                     (conversations s)(data_conversationId d \<mapsto>
                        fst (unread_loop_until (rejected_update f)
                               (conv\<lparr>lastMessage := Some (next_object_id s),
                                     lastMessageAt := now\<rparr>)
                               (socket_userId sock) (participants conv))) \<and>
                   out =
                     (if snd (unread_loop_until (rejected_update f)
                                (conv\<lparr>lastMessage := Some (next_object_id s),
                                      lastMessageAt := now\<rparr>)
                                (socket_userId sock) (participants conv))
                      then Inr (next_object_id s, m)
                      else Inl (SocketError ''Failed to send message''))))))"
  unfolding socket_message_send_def Let_def save_message_def
  by (simp add: new_Message_def split: option.split)

lemma post_outcome:
  "case post_message_route s u cid b now f of
     (s', out) \<Rightarrow>
       (messages s' = messages s \<and> conversations s' = conversations s \<and> isl out) \<or>
       (case conversations s cid of
          None \<Rightarrow> False
        | Some conv \<Rightarrow>
            isParticipant conv u \<and> f \<noteq> SaveMessage \<and> f \<noteq> FindConversation \<and>
            (case messages s' (next_object_id s) of
               None \<Rightarrow> False
             | Some m \<Rightarrow>
                 valid_message m \<and>
                 route_content (case body_type b of None \<Rightarrow> ascii ''text'' | Some t \<Rightarrow> t)
                   (body_content b) = Some (content m) \<and>
                 messages s' = (messages s)(next_object_id s \<mapsto> m) \<and>
                 ((conversations s' = conversations s \<and> isl out) \<or>
                  (conversations s' =
                     (conversations s)(cid \<mapsto>
                        fst (unread_loop_until (rejected_update f)
                               (conv\<lparr>lastMessage := Some (next_object_id s),
                                     lastMessageAt := now\<rparr>)
                               u (participants conv))) \<and>
                   out =
                     (if snd (unread_loop_until (rejected_update f)
                                (conv\<lparr>lastMessage := Some (next_object_id s),
                                      lastMessageAt := now\<rparr>)
                                u (participants conv))
                      then Inr (next_object_id s, m)
                      else Inl (HttpError 500 ''Something went wrong!''))))))"
  unfolding post_message_route_def Let_def save_message_def
  by (simp add: new_Message_def split: option.split prod.split)


lemma socket_send_facts:
  fixes s sock d now f
  defines "r \<equiv> socket_message_send s sock d now f"
  shows "f = SaveMessage \<or> f = FindConversation \<Longrightarrow>
           isl (snd r) \<and> conversations (fst r) = conversations s \<and> messages (fst r) = messages s"
    and "messages s (next_object_id s) = None \<Longrightarrow> messages (fst r) (next_object_id s) = None \<Longrightarrow>
           isl (snd r) \<and> conversations (fst r) = conversations s \<and> messages (fst r) = messages s"
    and "content_text (given_content (data_content d)) = Some txt \<Longrightarrow> 5000 < length txt \<Longrightarrow>
           isl (snd r) \<and> conversations (fst r) = conversations s \<and> messages (fst r) = messages s"
    and "conversations (fst r) = conversations s \<or>
         (\<exists>m c'. messages (fst r) (next_object_id s) = Some m \<and> valid_message m \<and>
            conversations (fst r) = (conversations s)(data_conversationId d \<mapsto> c') \<and>
            lastMessage c' = Some (next_object_id s) \<and> lastMessageAt c' = now)"
    and "mid' \<noteq> next_object_id s \<Longrightarrow> messages (fst r) mid' = messages s mid'"
    and "snd r = Inr (mid, m) \<Longrightarrow>
           mid = next_object_id s \<and> valid_message m \<and> f \<noteq> SaveMessage \<and>
           messages (fst r) mid = Some m \<and>
           (\<exists>conv. conversations s (data_conversationId d) = Some conv \<and>
              isParticipant conv (socket_userId sock) \<and>
              conversations (fst r) =
                (conversations s)(data_conversationId d \<mapsto>
                   unread_loop (conv\<lparr>lastMessage := Some mid, lastMessageAt := now\<rparr>)
                     (socket_userId sock) (participants conv)))"
proof -
  obtain s' out where so: "socket_message_send s sock d now f = (s', out)"
    by (cases "socket_message_send s sock d now f")
  note o = socket_send_outcome [where s = s and sock = sock and d = d and now = now and f = f,
      unfolded so, simplified]
  have r: "fst r = s'" "snd r = out"
    by (simp_all add: r_def so)
  show "f = SaveMessage \<or> f = FindConversation \<Longrightarrow>
           isl (snd r) \<and> conversations (fst r) = conversations s \<and> messages (fst r) = messages s"
    using o unfolding r by (auto split: option.splits)
  show "messages s (next_object_id s) = None \<Longrightarrow> messages (fst r) (next_object_id s) = None \<Longrightarrow>
           isl (snd r) \<and> conversations (fst r) = conversations s \<and> messages (fst r) = messages s"
    using o unfolding r by (auto split: option.splits)
  show "content_text (given_content (data_content d)) = Some txt \<Longrightarrow> 5000 < length txt \<Longrightarrow>
           isl (snd r) \<and> conversations (fst r) = conversations s \<and> messages (fst r) = messages s"
    using o unfolding r by (auto simp: valid_message_def split: option.splits)
  show "conversations (fst r) = conversations s \<or>
         (\<exists>m c'. messages (fst r) (next_object_id s) = Some m \<and> valid_message m \<and>
            conversations (fst r) = (conversations s)(data_conversationId d \<mapsto> c') \<and>
            lastMessage c' = Some (next_object_id s) \<and> lastMessageAt c' = now)"
    using o unfolding r by (auto simp: unread_loop_until_frame split: option.splits)
  show "mid' \<noteq> next_object_id s \<Longrightarrow> messages (fst r) mid' = messages s mid'"
    using o unfolding r by (auto split: option.splits)
  show "snd r = Inr (mid, m) \<Longrightarrow>
           mid = next_object_id s \<and> valid_message m \<and> f \<noteq> SaveMessage \<and>
           messages (fst r) mid = Some m \<and>
           (\<exists>conv. conversations s (data_conversationId d) = Some conv \<and>
              isParticipant conv (socket_userId sock) \<and>
              conversations (fst r) =
                (conversations s)(data_conversationId d \<mapsto>
                   unread_loop (conv\<lparr>lastMessage := Some mid, lastMessageAt := now\<rparr>)
                     (socket_userId sock) (participants conv)))"
    using o unfolding r
    by (auto simp: unread_loop_until_done split: option.splits if_splits)
qed


lemma post_facts:
  fixes s u cid b now f
  defines "r \<equiv> post_message_route s u cid b now f"
  shows "f = SaveMessage \<or> f = FindConversation \<Longrightarrow>
           isl (snd r) \<and> conversations (fst r) = conversations s \<and> messages (fst r) = messages s"
    and "messages s (next_object_id s) = None \<Longrightarrow> messages (fst r) (next_object_id s) = None \<Longrightarrow>
           isl (snd r) \<and> conversations (fst r) = conversations s \<and> messages (fst r) = messages s"
    and "body_type b = None \<or> body_type b = Some (ascii ''text'') \<Longrightarrow>
         body_content b = ContentString txt \<Longrightarrow> 5000 < length txt \<Longrightarrow>
           isl (snd r) \<and> conversations (fst r) = conversations s \<and> messages (fst r) = messages s"
    and "conversations (fst r) = conversations s \<or>
         (\<exists>m c'. messages (fst r) (next_object_id s) = Some m \<and> valid_message m \<and>
            conversations (fst r) = (conversations s)(cid \<mapsto> c') \<and>
            lastMessage c' = Some (next_object_id s) \<and> lastMessageAt c' = now)"
    and "mid' \<noteq> next_object_id s \<Longrightarrow> messages (fst r) mid' = messages s mid'"
    and "snd r = Inr (mid, m) \<Longrightarrow>
           mid = next_object_id s \<and> valid_message m \<and> f \<noteq> SaveMessage \<and>
           messages (fst r) mid = Some m \<and>
           (\<exists>conv. conversations s cid = Some conv \<and> isParticipant conv u \<and>
              conversations (fst r) =
                (conversations s)(cid \<mapsto>
                   unread_loop (conv\<lparr>lastMessage := Some mid, lastMessageAt := now\<rparr>) u
                     (participants conv)))"
proof -
  obtain s' out where so: "post_message_route s u cid b now f = (s', out)"
    by (cases "post_message_route s u cid b now f")
  note o = post_outcome [where s = s and u = u and cid = cid and b = b and now = now and f = f,
      unfolded so, simplified]
  have r: "fst r = s'" "snd r = out"
    by (simp_all add: r_def so)
  show "f = SaveMessage \<or> f = FindConversation \<Longrightarrow>
           isl (snd r) \<and> conversations (fst r) = conversations s \<and> messages (fst r) = messages s"
    using o unfolding r by (auto split: option.splits)
  show "messages s (next_object_id s) = None \<Longrightarrow> messages (fst r) (next_object_id s) = None \<Longrightarrow>
           isl (snd r) \<and> conversations (fst r) = conversations s \<and> messages (fst r) = messages s"
    using o unfolding r by (auto split: option.splits)
  show "body_type b = None \<or> body_type b = Some (ascii ''text'') \<Longrightarrow>
         body_content b = ContentString txt \<Longrightarrow> 5000 < length txt \<Longrightarrow>
           isl (snd r) \<and> conversations (fst r) = conversations s \<and> messages (fst r) = messages s"
  proof -
    assume ty: "body_type b = None \<or> body_type b = Some (ascii ''text'')"
      and bc: "body_content b = ContentString txt" and len: "5000 < length txt"
    have rc: "content_text c = Some txt"
      if "route_content (case body_type b of None \<Rightarrow> ascii ''text'' | Some t \<Rightarrow> t)
            (body_content b) = Some c" for c
      using that ty bc by (auto simp: route_content_def)
    have "\<not> (valid_message x \<and>
             route_content (case body_type b of None \<Rightarrow> ascii ''text'' | Some t \<Rightarrow> t)
               (body_content b) = Some (content x))" for x
      using rc [of "content x"] len by (auto simp: valid_message_def)
    with o show ?thesis
      unfolding r by (auto split: option.splits)
  qed
  show "conversations (fst r) = conversations s \<or>
         (\<exists>m c'. messages (fst r) (next_object_id s) = Some m \<and> valid_message m \<and>
            conversations (fst r) = (conversations s)(cid \<mapsto> c') \<and>
            lastMessage c' = Some (next_object_id s) \<and> lastMessageAt c' = now)"
    using o unfolding r by (auto simp: unread_loop_until_frame split: option.splits)
  show "mid' \<noteq> next_object_id s \<Longrightarrow> messages (fst r) mid' = messages s mid'"
    using o unfolding r by (auto split: option.splits)
  show "snd r = Inr (mid, m) \<Longrightarrow>
           mid = next_object_id s \<and> valid_message m \<and> f \<noteq> SaveMessage \<and>
           messages (fst r) mid = Some m \<and>
           (\<exists>conv. conversations s cid = Some conv \<and> isParticipant conv u \<and>
              conversations (fst r) =
                (conversations s)(cid \<mapsto>
                   unread_loop (conv\<lparr>lastMessage := Some mid, lastMessageAt := now\<rparr>) u
                     (participants conv)))"
    using o unfolding r
    by (auto simp: unread_loop_until_done split: option.splits if_splits)
qed

text \<open>The scenario of the specification: A sends a text to the direct conversation with B.\<close>

lemma socket_send_example:
  "snd (socket_message_send server0 desktop (yo_to 10) 5 NoFailure) = Inr (100, yo_message 10)"
  by (simp add: socket_message_send_def Let_def server0_def desktop_def yo_to_def
      given_content_def yo_message_def
      chat_def isParticipant_def new_conversation_participants_def message_type_of_def
      save_message_def valid_message_def new_Message_def rejected_update_def
      unread_loop_until_None ascii_def)

lemma post_example:
  "snd (post_message_route server0 4 10 yo_body 5 NoFailure) = Inr (100, yo_message 10)"
  by (simp add: post_message_route_def Let_def server0_def yo_body_def yo_message_def chat_def
      isParticipant_def new_conversation_participants_def message_type_of_def save_message_def
      valid_message_def new_Message_def route_content_def message_body_valid_def
      rejected_update_def unread_loop_until_None ascii_def)

lemma direct_send_counts:
  "currentCount (unread_loop (chat\<lparr>lastMessage := Some 100, lastMessageAt := 5\<rparr>) 4
       (participants chat)) 2 = 1"
  unfolding unread_loop_count
  by (simp add: chat_def new_conversation_participants_def currentCount_def)

text \<open>
  A rejection after the message's save leaves the message stored: here the
  \<^verbatim>\<open>populate\<close> after the save rejects, the handler emits its error, the message 100 is
  in the store and the conversation still points to the message 50.
\<close>

lemma populate_rejects_example:
  "isl (snd (socket_message_send server0 desktop (yo_to 10) 5 Populate)) \<and>
   messages (fst (socket_message_send server0 desktop (yo_to 10) 5 Populate)) 100 =
     Some (yo_message 10) \<and>
   conversations (fst (socket_message_send server0 desktop (yo_to 10) 5 Populate)) =
     conversations server0"
  by (simp add: socket_message_send_def Let_def server0_def desktop_def yo_to_def
      given_content_def yo_message_def
      chat_def isParticipant_def new_conversation_participants_def message_type_of_def
      save_message_def valid_message_def new_Message_def ascii_def)

text \<open>
  C6. Send atomicity at the persist boundary, for the socket handler \<open>S\<close> and for the
  HTTP route \<open>P\<close>, whichever store operation rejects. When the store refuses the
  message's write, when the text is longer than the schema allows, and whenever the new
  message is not in the store after the send, the send has ended in an error and the
  conversations (last-message pointers, their times, unread counters) and the messages
  are as they were. In every outcome the conversations are as they were, or the new
  message is stored and valid and the one conversation of the request has changed, its
  \<^verbatim>\<open>lastMessage\<close> holding the new message's id. No other message changes, and a
  send that succeeds has stored its message.
\<close>

theorem send_persist_boundary:
  fixes s sock d now f u cid b
  defines "S \<equiv> socket_message_send s sock d now f"
    and "P \<equiv> post_message_route s u cid b now f"
  shows
  "(f = SaveMessage \<longrightarrow>
      isl (snd S) \<and> conversations (fst S) = conversations s \<and> messages (fst S) = messages s) \<and>
   (messages s (next_object_id s) = None \<and> messages (fst S) (next_object_id s) = None \<longrightarrow>
      isl (snd S) \<and> conversations (fst S) = conversations s \<and> messages (fst S) = messages s) \<and>
   (content_text (given_content (data_content d)) = Some long \<and> 5000 < length long \<longrightarrow>
      isl (snd S) \<and> conversations (fst S) = conversations s \<and> messages (fst S) = messages s) \<and>
   (conversations (fst S) = conversations s \<or>
      (\<exists>m c'. messages (fst S) (next_object_id s) = Some m \<and> valid_message m \<and>
         conversations (fst S) = (conversations s)(data_conversationId d \<mapsto> c') \<and>
         lastMessage c' = Some (next_object_id s) \<and> lastMessageAt c' = now)) \<and>
   (mid' \<noteq> next_object_id s \<longrightarrow> messages (fst S) mid' = messages s mid') \<and>
   (snd S = Inr (mid, m) \<longrightarrow>
      mid = next_object_id s \<and> valid_message m \<and> f \<noteq> SaveMessage \<and>
      messages (fst S) mid = Some m) \<and>
   (f = SaveMessage \<longrightarrow>
      isl (snd P) \<and> conversations (fst P) = conversations s \<and> messages (fst P) = messages s) \<and>
   (messages s (next_object_id s) = None \<and> messages (fst P) (next_object_id s) = None \<longrightarrow>
      isl (snd P) \<and> conversations (fst P) = conversations s \<and> messages (fst P) = messages s) \<and>
   ((body_type b = None \<or> body_type b = Some (ascii ''text'')) \<and>
    body_content b = ContentString long \<and> 5000 < length long \<longrightarrow>
      isl (snd P) \<and> conversations (fst P) = conversations s \<and> messages (fst P) = messages s) \<and>
   (conversations (fst P) = conversations s \<or>
      (\<exists>m c'. messages (fst P) (next_object_id s) = Some m \<and> valid_message m \<and>
         conversations (fst P) = (conversations s)(cid \<mapsto> c') \<and>
         lastMessage c' = Some (next_object_id s) \<and> lastMessageAt c' = now)) \<and>
   (mid' \<noteq> next_object_id s \<longrightarrow> messages (fst P) mid' = messages s mid') \<and>
   (snd P = Inr (mid, m) \<longrightarrow>
      mid = next_object_id s \<and> valid_message m \<and> f \<noteq> SaveMessage \<and>
      messages (fst P) mid = Some m)"
proof -
  have a1: "f = SaveMessage \<longrightarrow>
      isl (snd S) \<and> conversations (fst S) = conversations s \<and> messages (fst S) = messages s"
    unfolding S_def
    using socket_send_facts(1)
      [where s = s and sock = sock and d = d and now = now and f = f]
    by blast
  have a2: "messages s (next_object_id s) = None \<and> messages (fst S) (next_object_id s) = None \<longrightarrow>
      isl (snd S) \<and> conversations (fst S) = conversations s \<and> messages (fst S) = messages s"
    unfolding S_def
    using socket_send_facts(2)
      [where s = s and sock = sock and d = d and now = now and f = f]
    by blast
  have a3: "content_text (given_content (data_content d)) = Some long \<and> 5000 < length long \<longrightarrow>
      isl (snd S) \<and> conversations (fst S) = conversations s \<and> messages (fst S) = messages s"
    unfolding S_def
    using socket_send_facts(3)
      [where s = s and sock = sock and d = d and now = now and f = f]
    by blast
  have a4: "conversations (fst S) = conversations s \<or>
      (\<exists>m c'. messages (fst S) (next_object_id s) = Some m \<and> valid_message m \<and>
         conversations (fst S) = (conversations s)(data_conversationId d \<mapsto> c') \<and>
         lastMessage c' = Some (next_object_id s) \<and> lastMessageAt c' = now)"
    unfolding S_def
    using socket_send_facts(4)
      [where s = s and sock = sock and d = d and now = now and f = f]
    by blast
  have a5: "mid' \<noteq> next_object_id s \<longrightarrow> messages (fst S) mid' = messages s mid'"
    unfolding S_def
    using socket_send_facts(5)
      [where s = s and sock = sock and d = d and now = now and f = f]
    by blast
  have a6: "snd S = Inr (mid, m) \<longrightarrow>
      mid = next_object_id s \<and> valid_message m \<and> f \<noteq> SaveMessage \<and>
      messages (fst S) mid = Some m"
    unfolding S_def
    using socket_send_facts(6)
      [where s = s and sock = sock and d = d and now = now and f = f]
    by blast
  have b1: "f = SaveMessage \<longrightarrow>
      isl (snd P) \<and> conversations (fst P) = conversations s \<and> messages (fst P) = messages s"
    unfolding P_def
    using post_facts(1)
      [where s = s and u = u and cid = cid and b = b and now = now and f = f]
    by blast
  have b2: "messages s (next_object_id s) = None \<and> messages (fst P) (next_object_id s) = None \<longrightarrow>
      isl (snd P) \<and> conversations (fst P) = conversations s \<and> messages (fst P) = messages s"
    unfolding P_def
    using post_facts(2)
      [where s = s and u = u and cid = cid and b = b and now = now and f = f]
    by blast
  have b3: "(body_type b = None \<or> body_type b = Some (ascii ''text'')) \<and>
    body_content b = ContentString long \<and> 5000 < length long \<longrightarrow>
      isl (snd P) \<and> conversations (fst P) = conversations s \<and> messages (fst P) = messages s"
    unfolding P_def
    using post_facts(3)
      [where s = s and u = u and cid = cid and b = b and now = now and f = f]
    by blast
  have b4: "conversations (fst P) = conversations s \<or>
      (\<exists>m c'. messages (fst P) (next_object_id s) = Some m \<and> valid_message m \<and>
         conversations (fst P) = (conversations s)(cid \<mapsto> c') \<and>
         lastMessage c' = Some (next_object_id s) \<and> lastMessageAt c' = now)"
    unfolding P_def
    using post_facts(4)
      [where s = s and u = u and cid = cid and b = b and now = now and f = f]
    by blast
  have b5: "mid' \<noteq> next_object_id s \<longrightarrow> messages (fst P) mid' = messages s mid'"
    unfolding P_def
    using post_facts(5)
      [where s = s and u = u and cid = cid and b = b and now = now and f = f]
    by blast
  have b6: "snd P = Inr (mid, m) \<longrightarrow>
      mid = next_object_id s \<and> valid_message m \<and> f \<noteq> SaveMessage \<and>
      messages (fst P) mid = Some m"
    unfolding P_def
    using post_facts(6)
      [where s = s and u = u and cid = cid and b = b and now = now and f = f]
    by blast
  show ?thesis
    by (intro conjI a1 a2 a3 a4 a5 a6 b1 b2 b3 b4 b5 b6)
qed

theorem send_persist_boundary_witness:
  "isl (snd (socket_message_send server0 desktop (yo_to 10) 5 SaveMessage)) \<and>
   conversations (fst (socket_message_send server0 desktop (yo_to 10) 5 SaveMessage)) =
     conversations server0 \<and>
   messages (fst (socket_message_send server0 desktop (yo_to 10) 5 SaveMessage)) =
     messages server0 \<and>
   isl (snd (post_message_route server0 4 10 yo_body 5 SaveMessage)) \<and>
   conversations (fst (post_message_route server0 4 10 yo_body 5 SaveMessage)) =
     conversations server0 \<and>
   messages (fst (post_message_route server0 4 10 yo_body 5 SaveMessage)) = messages server0 \<and>
   snd (socket_message_send server0 desktop (yo_to 10) 5 NoFailure) = Inr (100, yo_message 10) \<and>
   messages (fst (socket_message_send server0 desktop (yo_to 10) 5 NoFailure)) 100 =
     Some (yo_message 10) \<and>
   snd (post_message_route server0 4 10 yo_body 5 NoFailure) = Inr (100, yo_message 10) \<and>
   messages (fst (post_message_route server0 4 10 yo_body 5 NoFailure)) 100 =
     Some (yo_message 10) \<and>
   50 \<noteq> next_object_id server0 \<and>
   messages (fst (socket_message_send server0 desktop (yo_to 10) 5 NoFailure)) 50 =
     messages server0 50 \<and>
   messages (fst (post_message_route server0 4 10 yo_body 5 NoFailure)) 50 =
     messages server0 50"
proof -
  have n: "50 \<noteq> next_object_id server0"
    by (simp add: server0_def)
  show ?thesis
    using n socket_send_example post_example
      send_persist_boundary [where s = server0 and sock = desktop and d = "yo_to 10"
        and now = 5 and f = SaveMessage and u = 4 and cid = 10 and b = yo_body]
      send_persist_boundary [where s = server0 and sock = desktop and d = "yo_to 10"
        and now = 5 and f = NoFailure and u = 4 and cid = 10 and b = yo_body and mid = 100
        and m = "yo_message 10" and mid' = 50]
    by simp
qed

text \<open>
  A successful send to a conversation with one participant entry per user leaves the
  sender's counter as it was and adds exactly 1 to the counter of every other active
  participant.
\<close>

lemma currentCount_pointer:
  "currentCount (c\<lparr>lastMessage := a, lastMessageAt := b\<rparr>) u = currentCount c u"
  by (simp add: currentCount_def)

lemma socket_send_counts:
  assumes "snd (socket_message_send s sock d now f) = Inr (mid, m)"
    and "conversations s (data_conversationId d) = Some c"
    and "conversations (fst (socket_message_send s sock d now f)) (data_conversationId d) =
           Some c'"
    and "distinct (map user (participants c))"
  shows "currentCount c' (socket_userId sock) = currentCount c (socket_userId sock)"
    and "p \<in> set (participants c) \<Longrightarrow> isActive p \<Longrightarrow> user p \<noteq> socket_userId sock \<Longrightarrow>
         currentCount c' (user p) = currentCount c (user p) + 1"
proof -
  from socket_send_facts(6) [OF assms(1)] assms(2,3)
  have c': "c' = unread_loop (c\<lparr>lastMessage := Some mid, lastMessageAt := now\<rparr>)
                   (socket_userId sock) (participants c)"
    by auto
  show "currentCount c' (socket_userId sock) = currentCount c (socket_userId sock)"
    by (simp add: c' unread_loop_sender currentCount_pointer)
  show "currentCount c' (user p) = currentCount c (user p) + 1"
    if "p \<in> set (participants c)" "isActive p" "user p \<noteq> socket_userId sock"
    using that assms(4) by (simp add: c' unread_loop_exactly_one currentCount_pointer)
qed

lemma post_counts:
  assumes "snd (post_message_route s u cid b now f) = Inr (mid, m)"
    and "conversations s cid = Some c"
    and "conversations (fst (post_message_route s u cid b now f)) cid = Some c'"
    and "distinct (map user (participants c))"
  shows "currentCount c' u = currentCount c u"
    and "p \<in> set (participants c) \<Longrightarrow> isActive p \<Longrightarrow> user p \<noteq> u \<Longrightarrow>
         currentCount c' (user p) = currentCount c (user p) + 1"
proof -
  from post_facts(6) [OF assms(1)] assms(2,3)
  have c': "c' = unread_loop (c\<lparr>lastMessage := Some mid, lastMessageAt := now\<rparr>) u
                   (participants c)"
    by auto
  show "currentCount c' u = currentCount c u"
    by (simp add: c' unread_loop_sender currentCount_pointer)
  show "currentCount c' (user p) = currentCount c (user p) + 1"
    if "p \<in> set (participants c)" "isActive p" "user p \<noteq> u"
    using that assms(4) by (simp add: c' unread_loop_exactly_one currentCount_pointer)
qed

text \<open>
  C3, at the input where the code departs from the claim. User 4 created the group 11
  with the participant list \<open>[2, 2]\<close>; all counters are 0. User 4 sends one message; the
  send succeeds and the unread counter of user 2 is 2.
\<close>

theorem duplicate_participant_counted_twice:
  "participants team = new_conversation_participants 4 [2, 2] 0 \<and>
   conversations server0 11 = Some team \<and>
   currentCount team 2 = 0 \<and>
   snd (socket_message_send server0 desktop (yo_to 11) 5 NoFailure) =
     Inr (100, yo_message 11) \<and>
   (case conversations (fst (socket_message_send server0 desktop (yo_to 11) 5 NoFailure)) 11 of
      None \<Rightarrow> 0
    | Some c \<Rightarrow> currentCount c 2) = 2"
proof -
  have ok: "snd (socket_message_send server0 desktop (yo_to 11) 5 NoFailure) =
              Inr (100, yo_message 11)"
    by (simp add: socket_message_send_def Let_def server0_def desktop_def yo_to_def given_content_def
        yo_message_def team_def isParticipant_def new_conversation_participants_def
        message_type_of_def save_message_def valid_message_def new_Message_def
        rejected_update_def unread_loop_until_None ascii_def)
  have c: "conversations server0 11 = Some team"
    by (simp add: server0_def)
  have id: "data_conversationId (yo_to 11) = 11" "socket_userId desktop = 4"
    by (simp_all add: yo_to_def desktop_def)
  from socket_send_facts(6) [OF ok] c id
  have "conversations (fst (socket_message_send server0 desktop (yo_to 11) 5 NoFailure)) 11 =
          Some (unread_loop (team\<lparr>lastMessage := Some 100, lastMessageAt := 5\<rparr>) 4
                  (participants team))"
    by simp
  moreover have "currentCount (unread_loop (team\<lparr>lastMessage := Some 100, lastMessageAt := 5\<rparr>)
                    4 (participants team)) 2 = 2"
    unfolding unread_loop_count
    by (simp add: team_def new_conversation_participants_def currentCount_def)
  moreover have "currentCount team 2 = 0"
    by (simp add: team_def currentCount_def)
  moreover have "participants team = new_conversation_participants 4 [2, 2] 0"
    by (simp add: team_def)
  ultimately show ?thesis
    using ok c by simp
qed

section \<open>Muting\<close>

lemma find_mute_after_mute:
  "map_option mutedUntil
     (find (\<lambda>m. mute_user m = u) (mutedBy (muteConversation c u d now))) =
   Some (case d of None \<Rightarrow> None | Some k \<Rightarrow> if k = 0 then None else Some (now + k))"
  by (cases "find (\<lambda>m. mute_user m = u) (mutedBy c)")
     (simp_all add: muteConversation_def Let_def find_snoc find_update_first)

text \<open>
  A mute with a duration other than 0 is reported until its expiry \<open>now + d\<close> and not
  from then on; a call that answers false leaves no entry of the user; a call that answers
  true changes nothing; after \<^verbatim>\<open>unmuteConversation\<close> the answer is false.
\<close>

lemma mute_with_duration:
  "d \<noteq> 0 \<Longrightarrow> fst (isUserMuted (muteConversation c u (Some d) now) u t) = (t < now + d)"
  using find_mute_after_mute [of u c "Some d" now]
  by (auto simp: isUserMuted_def split: option.splits)

lemma mute_evicted:
  "\<not> fst (isUserMuted c u t) \<Longrightarrow>
   \<not> list_ex (\<lambda>m. mute_user m = u) (mutedBy (snd (isUserMuted c u t)))"
  by (auto simp: isUserMuted_def list_ex_iff find_None_iff split: option.splits if_splits)

lemma mute_kept: "fst (isUserMuted c u t) \<Longrightarrow> snd (isUserMuted c u t) = c"
  by (auto simp: isUserMuted_def split: option.splits if_splits)

lemma unmuted: "fst (isUserMuted (unmuteConversation c u) u t) = False"
proof -
  have "find (\<lambda>m. mute_user m = u) (filter (\<lambda>m. mute_user m \<noteq> u) (mutedBy c)) = None"
    by (simp add: find_None_iff)
  then show ?thesis
    by (simp add: isUserMuted_def unmuteConversation_def)
qed

text \<open>
  A mute without a duration stores no \<^verbatim>\<open>mutedUntil\<close>, and \<^verbatim>\<open>isUserMuted\<close> takes an
  entry without \<^verbatim>\<open>mutedUntil\<close> for an expired one, whatever the time.
\<close>

lemma mute_without_duration:
  "fst (isUserMuted (muteConversation c u None now) u t) = False"
  using find_mute_after_mute [of u c None now]
  by (auto simp: isUserMuted_def split: option.splits)

text \<open>
  C7, at the input where the code departs from the claim. User 2 mutes the direct
  conversation without a duration at time 1000; the read at time 1001 answers false and
  removes the entry.
\<close>

theorem indefinite_mute_reads_unmuted:
  "mutedBy (muteConversation chat 2 None 1000) =
     [\<lparr>mute_user = 2, mutedUntil = None, mutedAt = 1000\<rparr>] \<and>
   isUserMuted (muteConversation chat 2 None 1000) 2 1001 = (False, chat)"
  by (simp add: chat_def muteConversation_def isUserMuted_def)

section \<open>Presence\<close>

lemma connection_replaces:
  "socket_userId h = socket_userId h' \<Longrightarrow>
   on_connection (on_connection s h) h' = on_connection s h'"
  by (simp add: on_connection_def)

lemma disconnect_again: "on_disconnect (on_disconnect s h) h = on_disconnect s h"
  by (simp add: on_disconnect_def)

lemma presence_of_others:
  "v \<noteq> socket_userId h \<Longrightarrow>
   connectedUsers (on_disconnect s h) v = connectedUsers s v \<and>
   connectedUsers (on_connection s h) v = connectedUsers s v"
  by (simp add: on_disconnect_def on_connection_def)

text \<open>
  C8, the claim as stated fails: user 2 connects with the handle \<open>h1\<close>, connects again
  with \<open>h2\<close>, and then the first connection's disconnect arrives. The table holds
  \<open>h2\<close> for user 2 before the disconnect and nothing after it.
\<close>

theorem stale_disconnect_removes_new_handle:
  "socket_userId phone = socket_userId laptop \<and>
   socket_id phone \<noteq> socket_id laptop \<and>
   connectedUsers (on_connection (on_connection server0 phone) laptop) 2 =
     Some \<lparr>conn_socketId = ascii ''h2'', conn_userId = 2\<rparr> \<and>
   \<not> isOnline (on_disconnect (on_connection (on_connection server0 phone) laptop) phone) 2"
  by (simp add: isOnline_def on_disconnect_def on_connection_def phone_def laptop_def ascii_def)

text \<open>
  C8, amended. The table is keyed by the user: a second connection of the same user
  replaces the first one's entry with its own handle (last writer wins), and a
  disconnect deletes the entry of the disconnecting socket's user, whichever handle the
  entry holds. So after the connections \<open>h\<close> and \<open>h'\<close> of one user and the
  disconnect of \<open>h\<close>, that user is not online. A repeated disconnect changes
  nothing, and no other user's entry changes.
\<close>

theorem presence_keyed_by_user:
  "(socket_userId h = socket_userId h' \<longrightarrow>
      connectedUsers (on_connection (on_connection s h) h') (socket_userId h') =
        Some \<lparr>conn_socketId = socket_id h', conn_userId = socket_userId h'\<rparr> \<and>
      on_connection (on_connection s h) h' = on_connection s h' \<and>
      \<not> isOnline (on_disconnect (on_connection (on_connection s h) h') h)
          (socket_userId h')) \<and>
   isOnline (on_connection s h) (socket_userId h) \<and>
   \<not> isOnline (on_disconnect s h) (socket_userId h) \<and>
   on_disconnect (on_disconnect s h) h = on_disconnect s h \<and>
   (v \<noteq> socket_userId h \<longrightarrow>
      connectedUsers (on_disconnect s h) v = connectedUsers s v \<and>
      connectedUsers (on_connection s h) v = connectedUsers s v)"
  by (simp add: isOnline_def on_disconnect_def on_connection_def)

theorem presence_keyed_by_user_witness:
  "socket_userId phone = socket_userId laptop \<and>
   connectedUsers (on_connection (on_connection server0 phone) laptop) (socket_userId laptop) =
     Some \<lparr>conn_socketId = socket_id laptop, conn_userId = socket_userId laptop\<rparr> \<and>
   \<not> isOnline (on_disconnect (on_connection (on_connection server0 phone) laptop) phone)
       (socket_userId laptop) \<and>
   4 \<noteq> socket_userId phone \<and>
   connectedUsers (on_disconnect (on_connection server0 desktop) phone) 4 =
     connectedUsers (on_connection server0 desktop) 4"
proof -
  have a: "socket_userId phone = socket_userId laptop"
    by (simp add: phone_def laptop_def)
  have b: "4 \<noteq> socket_userId phone"
    by (simp add: phone_def)
  show ?thesis
    using a b
      presence_keyed_by_user [where h = phone and h' = laptop and s = server0]
      presence_keyed_by_user [where h = phone and s = "on_connection server0 desktop"
        and v = 4]
    by blast
qed

section \<open>Deleted messages\<close>


lemma authorize_participant:
  "messages s mid = Some m \<Longrightarrow> conversations s (conversation m) = Some c \<Longrightarrow>
   isParticipant c u \<Longrightarrow> authorizeMessageAccess s u (Some mid) = Inr (mid, m)"
  by (simp add: authorizeMessageAccess_def)



















section \<open>Forwarding to several conversations\<close>

lemma length_filter_map_filter: "length (filter P (List.map_filter f xs)) \<le> length xs"
  by (induction xs) (auto split: option.split)

lemma targets_short:
  "x \<in> set xs \<Longrightarrow> (case f x of None \<Rightarrow> True | Some y \<Rightarrow> \<not> P y) \<Longrightarrow>
   length (filter P (List.map_filter f xs)) < length xs"
proof (induction xs)
  case Nil
  then show ?case by simp
next
  case (Cons a xs)
  have le: "length (filter P (List.map_filter f xs)) \<le> length xs"
    by (rule length_filter_map_filter)
  show ?case
  proof (cases "x = a")
    case True
    with Cons.prems(2) le show ?thesis
      by (auto split: option.splits)
  next
    case False
    with Cons have "length (filter P (List.map_filter f xs)) < length xs" by simp
    then show ?thesis
      by (auto split: option.split)
  qed
qed

text \<open>
  The route's check is all-or-nothing for its own query: when some listed id has no
  conversation, or its conversation does not match the query, fewer conversations come
  back than ids were given and the route answers 400 with the state unchanged.
\<close>

lemma forward_targets_short:
  assumes "cid \<in> set ids"
    and "case conversations s cid of None \<Rightarrow> True | Some c \<Rightarrow> \<not> forward_query u c"
  shows "length (find_forward_targets s ids u) < length ids"
proof -
  have "cid \<in> set (remdups ids)" using assms(1) by simp
  moreover have "case map_option (Pair cid) (conversations s cid) of
                   None \<Rightarrow> True | Some y \<Rightarrow> \<not> (case y of (i, c) \<Rightarrow> forward_query u c)"
    using assms(2) by (simp split: option.splits)
  ultimately have "length (find_forward_targets s ids u) < length (remdups ids)"
    unfolding find_forward_targets_def by (rule targets_short)
  also have "\<dots> \<le> length ids" by (rule length_remdups_leq)
  finally show ?thesis .
qed

lemma forward_rejected:
  assumes "cid \<in> set ids"
    and "case conversations s cid of None \<Rightarrow> True | Some c \<Rightarrow> \<not> forward_query u c"
  shows "fst (forward_route s u mid ids now) = s \<and> isl (snd (forward_route s u mid ids now))"
proof -
  have "length (find_forward_targets s ids u) \<noteq> length ids"
    using forward_targets_short [OF assms] by simp
  then show ?thesis
    by (simp add: forward_route_def Let_def split: sum.split prod.split)
qed

text \<open>
  The query is weaker than the membership test of the other handlers: an active
  participant matches it, and so does a user who left while someone else is active.
\<close>

lemma isParticipant_forward_query: "isParticipant c u \<Longrightarrow> forward_query u c"
  by (auto simp: isParticipant_def forward_query_def list_ex_iff)

lemma club_matches_query: "\<not> isParticipant club 4 \<and> forward_query 4 club"
  by (simp add: club_def isParticipant_def forward_query_def removeParticipant_def
      new_conversation_participants_def)

text \<open>
  C2, at the input where the code departs from the claim. User 4 forwards the message 50
  to the conversations 10 and 12. User 4 is an active participant of 10 and has left 12,
  where user 3 is still active. Before the request the ids 100 and 101 hold no message;
  after it there is a forwarded copy in conversation 10 and another in conversation 12.
\<close>

theorem forward_reaches_left_conversation:
  "conversations server0 10 = Some chat \<and> isParticipant chat 4 \<and>
   conversations server0 12 = Some club \<and> \<not> isParticipant club 4 \<and>
   messages server0 100 = None \<and> messages server0 101 = None \<and>
   messages (fst (forward_route server0 4 (Some 50) [10, 12] 9)) 100 =
     Some (forwardMessage 50 hello 10 4) \<and>
   messages (fst (forward_route server0 4 (Some 50) [10, 12] 9)) 101 =
     Some (forwardMessage 50 hello 12 4) \<and>
   conversation (forwardMessage 50 hello 12 4) = 12"
proof -
  have a: "authorizeMessageAccess server0 4 (Some 50) = Inr (50, hello)"
    by (simp add: authorizeMessageAccess_def server0_def hello_def new_Message_def)
  have q: "forward_query 4 chat" "forward_query 4 club"
    by (simp_all add: chat_def club_def forward_query_def removeParticipant_def
        new_conversation_participants_def)
  have t: "find_forward_targets server0 [10, 12] 4 = [(10, chat), (12, club)]"
    using q by (simp add: find_forward_targets_def server0_def)
  have r: "fst (forward_route server0 4 (Some 50) [10, 12] 9) =
             fst (forward_loop server0 50 hello 4 9 [(10, chat), (12, club)])"
    by (simp add: forward_route_def a t Let_def)
  have n: "next_object_id server0 = 100" "messages server0 100 = None"
    "messages server0 101 = None" "conversations server0 10 = Some chat"
    "conversations server0 12 = Some club"
    by (simp_all add: server0_def)
  have l: "messages (fst (forward_loop server0 50 hello 4 9 [(10, chat), (12, club)])) 100 =
             Some (forwardMessage 50 hello 10 4) \<and>
           messages (fst (forward_loop server0 50 hello 4 9 [(10, chat), (12, club)])) 101 =
             Some (forwardMessage 50 hello 12 4)"
    by (simp add: Let_def n)
  have p: "isParticipant chat 4" "\<not> isParticipant club 4"
    by (simp_all add: chat_def club_def isParticipant_def removeParticipant_def
        new_conversation_participants_def)
  have c: "conversation (forwardMessage 50 hello 12 4) = 12"
    by (simp add: forwardMessage_def new_Message_def)
  show ?thesis
    using n p l c by (simp add: r)
qed

end
